theory Spec2Isabelle
  imports Complex_Main "HOL-Library.Word"
begin

section \<open>Instants and durations\<close>

text \<open>
  The program reads and stores instants as Go \<^verbatim>\<open>time.Time\<close> values. Every instant it
  handles has no monotonic clock reading: \<^verbatim>\<open>now\<close> is \<^verbatim>\<open>time.Now().UTC()\<close>, which strips
  it, and the stored instants come from the JSON file. Such an instant is a count of
  nanoseconds since the zero instant (January 1, year 1, 00:00:00 UTC), modelled as an
  \<open>int\<close>. \<^verbatim>\<open>IsZero\<close> holds of the zero instant alone.

  A \<^verbatim>\<open>time.Duration\<close> is an \<^verbatim>\<open>int64\<close> count of nanoseconds: a 64-bit word, read with
  \<open>sint\<close>, whose \<open>+\<close> wraps around as Go's does.
\<close>

type_synonym Time = int
type_synonym Duration = "64 word"

definition time_IsZero :: "Time \<Rightarrow> bool" where
  "time_IsZero t = (t = 0)"

definition minDuration :: int where
  "minDuration = - (2 ^ 63)"

definition maxDuration :: int where
  "maxDuration = 2 ^ 63 - 1"

text \<open>
  \<^verbatim>\<open>t.Sub(u)\<close> is the difference \<open>t - u\<close>; when it does not fit a \<^verbatim>\<open>Duration\<close>, the
  library returns the minimum or the maximum duration instead.
\<close>

definition time_Sub :: "Time \<Rightarrow> Time \<Rightarrow> Duration" where
  "time_Sub t u =
     (if t - u < minDuration then word_of_int minDuration
      else if maxDuration < t - u then word_of_int maxDuration
      else word_of_int (t - u))"

text \<open>
  \<^verbatim>\<open>time.Since(u)\<close> is \<^verbatim>\<open>time.Now().Sub(u)\<close>: every call reads the clock again. A clock
  is the sequence of its readings, and the commands that call \<^verbatim>\<open>time.Since\<close> thread the
  number of readings taken so far.
\<close>

type_synonym Clock = "nat \<Rightarrow> Time"

definition time_Since :: "Clock \<Rightarrow> nat \<Rightarrow> Time \<Rightarrow> Duration" where
  "time_Since clk k u = time_Sub (clk k) u"

text \<open>
  \<^verbatim>\<open>d.Minutes()\<close> is a \<^verbatim>\<open>float64\<close>; it is modelled by the real number it approximates, and
  rounding is not modelled.
\<close>

definition Minutes :: "Duration \<Rightarrow> real" where
  "Minutes d = real_of_int (sint d) / 60000000000"

section \<open>Data model\<close>

record LogEntry =
  Start :: Time
  End :: Time

record Project =
  Name :: string
  Logs :: "LogEntry list"
  TotalTime :: Duration

record TrackerData =
  Projects :: "Project list"

text \<open>\<^verbatim>\<open>loadTracker\<close> on a missing file: the empty tracker.\<close>

definition emptyTracker :: TrackerData where
  "emptyTracker = \<lparr>Projects = []\<rparr>"

fun projectExists :: "TrackerData \<Rightarrow> string \<Rightarrow> bool" where
  "projectExists tracker name = list_ex (\<lambda>p. Name p = name) (Projects tracker)"

text \<open>
  The commands \<^verbatim>\<open>delete\<close>, \<^verbatim>\<open>start\<close>, \<^verbatim>\<open>stop\<close> and \<^verbatim>\<open>stats\<close> all scan
  \<^verbatim>\<open>tracker.Projects\<close> with \<^verbatim>\<open>for i, p := range\<close> and return inside the first iteration
  whose \<^verbatim>\<open>p.Name == name\<close>: the body runs at the first matching index, or not at all.
\<close>

fun firstIndex :: "string \<Rightarrow> Project list \<Rightarrow> nat option" where
  "firstIndex name [] = None"
| "firstIndex name (p # ps) =
     (if Name p = name then Some 0 else map_option Suc (firstIndex name ps))"

section \<open>The commands of \<^verbatim>\<open>main\<close> that change the tracker\<close>

text \<open>
  What a command prints, as a value. The tracker a command returns is the in-memory
  tracker when the command ends; it is saved exactly when it was changed.
\<close>

datatype Output =
    ProjectExists
  | Created
  | Cancelled
  | Deleted
  | NotFound
  | AlreadyActive
  | Started
  | NotActive
  | Stopped Duration Duration

definition create :: "string \<Rightarrow> TrackerData \<Rightarrow> Output \<times> TrackerData" where
  "create name tracker =
     (if projectExists tracker name then (ProjectExists, tracker)
      else (Created,
            tracker\<lparr>Projects := Projects tracker @ [\<lparr>Name = name, Logs = [], TotalTime = 0\<rparr>]\<rparr>))"

text \<open>\<open>r\<close> is the answer read from the terminal to the confirmation prompt.\<close>

definition delete :: "string \<Rightarrow> string \<Rightarrow> TrackerData \<Rightarrow> Output \<times> TrackerData" where
  "delete name r tracker =
     (case firstIndex name (Projects tracker) of
        None \<Rightarrow> (NotFound, tracker)
      | Some i \<Rightarrow>
          if r \<noteq> ''y'' \<and> r \<noteq> ''Y'' then (Cancelled, tracker)
          else (Deleted,
                tracker\<lparr>Projects := take i (Projects tracker) @ drop (i + 1) (Projects tracker)\<rparr>))"

definition start :: "string \<Rightarrow> Time \<Rightarrow> TrackerData \<Rightarrow> Output \<times> TrackerData" where
  "start name now tracker =
     (case firstIndex name (Projects tracker) of
        None \<Rightarrow> (NotFound, tracker)
      | Some i \<Rightarrow>
          (let p = Projects tracker ! i; logs = Logs p in
           if length logs > 0 \<and> time_IsZero (End (logs ! (length logs - 1)))
           then (AlreadyActive, tracker)
           else (Started,
                 tracker\<lparr>Projects := (Projects tracker)
                   [i := (Projects tracker ! i)\<lparr>Logs := logs @ [\<lparr>Start = now, End = 0\<rparr>]\<rparr>]\<rparr>)))"

definition stop :: "string \<Rightarrow> Time \<Rightarrow> TrackerData \<Rightarrow> Output \<times> TrackerData" where
  "stop name now tracker =
     (case firstIndex name (Projects tracker) of
        None \<Rightarrow> (NotFound, tracker)
      | Some i \<Rightarrow>
          (let p = Projects tracker ! i; logs = Logs p in
           if length logs = 0 \<or> \<not> time_IsZero (End (logs ! (length logs - 1)))
           then (NotActive, tracker)
           else
             (let end' = now;
                  dur = time_Sub end' (Start (logs ! (length logs - 1)));
                  q = (Projects tracker ! i)
                        \<lparr>Logs := logs[length logs - 1 := (logs ! (length logs - 1))\<lparr>End := end'\<rparr>]\<rparr>;
                  q' = q\<lparr>TotalTime := TotalTime q + dur\<rparr>
              in (Stopped dur (TotalTime q'), tracker\<lparr>Projects := (Projects tracker)[i := q']\<rparr>))))"

section \<open>The commands that only read\<close>

text \<open>
  \<^verbatim>\<open>status\<close>: one line for every project whose last entry is open, with the name, the
  start of that entry and the time since it; an empty list prints as \<^verbatim>\<open>None\<close>.
\<close>

fun status :: "Clock \<Rightarrow> nat \<Rightarrow> Project list \<Rightarrow> (string \<times> Time \<times> Duration) list" where
  "status clk k [] = []"
| "status clk k (p # ps) =
     (if length (Logs p) > 0 \<and> time_IsZero (End (Logs p ! (length (Logs p) - 1)))
      then (let start' = Start (Logs p ! (length (Logs p) - 1));
                dur = time_Since clk k start'
            in (Name p, start', dur) # status clk (k + 1) ps)
      else status clk k ps)"

text \<open>
  \<^verbatim>\<open>stats\<close>: for the first project of that name, the number of sessions, the total
  time, and one row for every entry: its 1-based number, its start, its end (\<open>None\<close>
  for the \<^verbatim>\<open>-\<close> printed for an open entry) and its duration. The loop reads the clock
  once for every entry, open or closed.
\<close>

record StatsRow =
  Ordinal :: nat
  RowStart :: Time
  RowEnd :: "Time option"
  RowDur :: Duration

fun statsRows :: "Clock \<Rightarrow> nat \<Rightarrow> nat \<Rightarrow> LogEntry list \<Rightarrow> StatsRow list" where
  "statsRows clk k i [] = []"
| "statsRows clk k i (e # es) =
     (let dur = time_Since clk k (Start e);
          row = (if \<not> time_IsZero (End e)
                 then \<lparr>Ordinal = i + 1, RowStart = Start e, RowEnd = Some (End e),
                       RowDur = time_Sub (End e) (Start e)\<rparr>
                 else \<lparr>Ordinal = i + 1, RowStart = Start e, RowEnd = None, RowDur = dur\<rparr>)
      in row # statsRows clk (k + 1) (i + 1) es)"

definition stats :: "string \<Rightarrow> Clock \<Rightarrow> nat \<Rightarrow> TrackerData \<Rightarrow> (nat \<times> Duration \<times> StatsRow list) option" where
  "stats name clk k tracker =
     (case firstIndex name (Projects tracker) of
        None \<Rightarrow> None
      | Some i \<Rightarrow>
          (let p = Projects tracker ! i
           in Some (length (Logs p), TotalTime p, statsRows clk k 0 (Logs p))))"

text \<open>
  \<^verbatim>\<open>report\<close>. Both of its loops start with the same four lines, which give the time of
  one project: its \<^verbatim>\<open>TotalTime\<close>, plus the time since the start of its last entry when
  that entry is open. \<open>timeOf\<close> is those lines at the clock reading \<open>now\<close> that
  \<^verbatim>\<open>time.Since\<close> takes; a project whose last entry is closed reads no clock.
\<close>

definition timeOf :: "Time \<Rightarrow> Project \<Rightarrow> Duration" where
  "timeOf now p =
     (let t = TotalTime p in
      if length (Logs p) > 0 \<and> time_IsZero (End (Logs p ! (length (Logs p) - 1)))
      then t + time_Sub now (Start (Logs p ! (length (Logs p) - 1)))
      else t)"

definition reads :: "Project \<Rightarrow> nat" where
  "reads p =
     (if length (Logs p) > 0 \<and> time_IsZero (End (Logs p ! (length (Logs p) - 1)))
      then 1 else 0)"

fun grandTotal :: "Clock \<Rightarrow> nat \<Rightarrow> Project list \<Rightarrow> Duration \<Rightarrow> Duration \<times> nat" where
  "grandTotal clk k [] totalAll = (totalAll, k)"
| "grandTotal clk k (p # ps) totalAll =
     grandTotal clk (k + reads p) ps (totalAll + timeOf (clk k) p)"

record ReportRow =
  RowName :: string
  Sessions :: nat
  RowTime :: Duration
  Percent :: real

definition percentOf :: "Duration \<Rightarrow> Duration \<Rightarrow> real" where
  "percentOf t totalAll =
     (if 0 < sint totalAll then (Minutes t / Minutes totalAll) * 100 else 0)"

fun reportRows :: "Clock \<Rightarrow> nat \<Rightarrow> Duration \<Rightarrow> Project list \<Rightarrow> ReportRow list" where
  "reportRows clk k totalAll [] = []"
| "reportRows clk k totalAll (p # ps) =
     (let t = timeOf (clk k) p
      in \<lparr>RowName = Name p, Sessions = length (Logs p), RowTime = t,
          Percent = percentOf t totalAll\<rparr>
         # reportRows clk (k + reads p) totalAll ps)"

text \<open>\<open>None\<close> is the \<^verbatim>\<open>No projects.\<close> line; otherwise the rows and the total printed last.\<close>

definition report :: "Clock \<Rightarrow> nat \<Rightarrow> TrackerData \<Rightarrow> (ReportRow list \<times> Duration) option" where
  "report clk k tracker =
     (if length (Projects tracker) = 0 then None
      else (let (totalAll, k') = grandTotal clk k (Projects tracker) 0
            in Some (reportRows clk k' totalAll (Projects tracker), totalAll)))"

section \<open>The states of a project\<close>

text \<open>
  The specification's predicate: a project is Active when its log sequence is non-empty
  and the end of its last entry is absent, and Idle otherwise. The code has no such
  function; each command tests the condition in place.
\<close>

datatype SessionState = Idle | Active

definition isActive :: "Project \<Rightarrow> bool" where
  "isActive p = (Logs p \<noteq> [] \<and> time_IsZero (End (last (Logs p))))"

definition stateOf :: "Project \<Rightarrow> SessionState" where
  "stateOf p = (if isActive p then Active else Idle)"

section \<open>Runs of the program\<close>

text \<open>
  One invocation of the program reads the clock once (\<^verbatim>\<open>now\<close>), loads the tracker, runs the
  command named by its arguments and saves the tracker if the command changed it. The
  commands that can change it are these four; a run is a sequence of invocations that
  starts from the empty tracker of the first load.
\<close>

datatype Command = CmdCreate string | CmdDelete string string | CmdStart string | CmdStop string

fun exec :: "Time \<Rightarrow> Command \<Rightarrow> TrackerData \<Rightarrow> Output \<times> TrackerData" where
  "exec now (CmdCreate name) tracker = create name tracker"
| "exec now (CmdDelete name r) tracker = delete name r tracker"
| "exec now (CmdStart name) tracker = start name now tracker"
| "exec now (CmdStop name) tracker = stop name now tracker"

fun runAll :: "(Time \<times> Command) list \<Rightarrow> TrackerData \<Rightarrow> TrackerData" where
  "runAll [] tracker = tracker"
| "runAll ((now, c) # cs) tracker = runAll cs (snd (exec now c tracker))"

text \<open>
  The specification's invariant on a log sequence: an open entry, if there is one, is the
  last entry. That is: every entry before the last is closed.
\<close>

definition wellFormedLogs :: "LogEntry list \<Rightarrow> bool" where
  "wellFormedLogs logs = list_all (\<lambda>e. \<not> time_IsZero (End e)) (butlast logs)"

definition wellFormed :: "TrackerData \<Rightarrow> bool" where
  "wellFormed tracker = list_all (\<lambda>p. wellFormedLogs (Logs p)) (Projects tracker)"

text \<open>
  The specification's invariant on totals: \<open>TotalTime\<close> is the sum of \<open>end - start\<close> over
  the closed entries. Each difference is the \<^verbatim>\<open>Duration\<close> that \<^verbatim>\<open>End.Sub(Start)\<close> gives, as
  \<^verbatim>\<open>stats\<close> prints it for a closed entry, and the sum is a sum of \<^verbatim>\<open>Duration\<close>s.
\<close>

definition closedSum :: "LogEntry list \<Rightarrow> Duration" where
  "closedSum logs =
     sum_list (map (\<lambda>e. time_Sub (End e) (Start e)) (filter (\<lambda>e. \<not> time_IsZero (End e)) logs))"

definition totalsAgree :: "TrackerData \<Rightarrow> bool" where
  "totalsAgree tracker = list_all (\<lambda>p. TotalTime p = closedSum (Logs p)) (Projects tracker)"

section \<open>Example data\<close>

text \<open>
  An instant of the year 2025 or so; trackers with an open session, with a closed session
  of 90 seconds beside a project without sessions, and with two open sessions; a clock
  that advances by a nanosecond from one reading to the next, and one that stands still; a
  run of six invocations; the tracker after a stop with the clock set back by a minute;
  and the tracker of the specification's report scenario.
\<close>

definition T0 :: Time where "T0 = 63900000000000000000"

definition alphaOpen :: TrackerData where
  "alphaOpen = \<lparr>Projects = [\<lparr>Name = ''alpha'', Logs = [\<lparr>Start = T0, End = 0\<rparr>], TotalTime = 0\<rparr>]\<rparr>"

definition alphaClosed :: TrackerData where
  "alphaClosed = \<lparr>Projects = [\<lparr>Name = ''alpha'',
      Logs = [\<lparr>Start = T0, End = T0 + 90000000000\<rparr>], TotalTime = 90000000000\<rparr>,
      \<lparr>Name = ''beta'', Logs = [], TotalTime = 0\<rparr>]\<rparr>"

definition bothOpen :: TrackerData where
  "bothOpen = \<lparr>Projects = [\<lparr>Name = ''alpha'',
      Logs = [\<lparr>Start = T0, End = T0 + 90000000000\<rparr>, \<lparr>Start = T0 + 100000000000, End = 0\<rparr>],
      TotalTime = 90000000000\<rparr>,
      \<lparr>Name = ''beta'', Logs = [\<lparr>Start = T0 + 5, End = 0\<rparr>], TotalTime = 0\<rparr>]\<rparr>"

definition tick :: Clock where
  "tick n = T0 + 160000000000 + int n"

definition sampleRun :: "(Time \<times> Command) list" where
  "sampleRun =
     [(T0, CmdCreate ''alpha''), (T0 + 1000000000, CmdStart ''alpha''),
      (T0 + 91000000000, CmdStop ''alpha''), (T0 + 95000000000, CmdCreate ''beta''),
      (T0 + 100000000000, CmdStart ''alpha''), (T0 + 100000000001, CmdStart ''alpha'')]"

definition alphaNegative :: TrackerData where
  "alphaNegative = \<lparr>Projects = [\<lparr>Name = ''alpha'',
      Logs = [\<lparr>Start = T0 + 60000000000, End = T0\<rparr>], TotalTime = - 60000000000\<rparr>]\<rparr>"

definition alphaBeta :: TrackerData where
  "alphaBeta = \<lparr>Projects = [\<lparr>Name = ''alpha'', Logs = [\<lparr>Start = T0, End = 0\<rparr>], TotalTime = 0\<rparr>,
      \<lparr>Name = ''beta'', Logs = [], TotalTime = 60000000000\<rparr>]\<rparr>"

definition steady :: Clock where
  "steady n = T0 + 60000000000"

section \<open>Facts about the scan and the two mutating commands\<close>

lemma firstIndex_Some:
  "firstIndex name ps = Some i \<Longrightarrow>
     i < length ps \<and> Name (ps ! i) = name \<and> (\<forall>j<i. Name (ps ! j) \<noteq> name)"
proof (induction ps arbitrary: i)
  case Nil
  then show ?case by simp
next
  case (Cons p ps)
  show ?case
  proof (cases "Name p = name")
    case True
    with Cons.prems show ?thesis by simp
  next
    case False
    with Cons.prems obtain i' where i': "firstIndex name ps = Some i'" "i = Suc i'"
      by auto
    from Cons.IH [OF i'(1)] False i'(2) show ?thesis
      by (auto simp: nth_Cons split: nat.splits)
  qed
qed

lemma firstIndex_None: "firstIndex name ps = None \<longleftrightarrow> name \<notin> Name ` set ps"
  by (induction ps) auto

lemma firstIndex_first:
  "i < length ps \<Longrightarrow> Name (ps ! i) = name \<Longrightarrow> \<forall>j<i. Name (ps ! j) \<noteq> name \<Longrightarrow>
     firstIndex name ps = Some i"
proof (induction ps arbitrary: i)
  case Nil
  then show ?case by simp
next
  case (Cons p ps)
  show ?case
  proof (cases i)
    case 0
    with Cons.prems show ?thesis by simp
  next
    case (Suc i')
    with Cons.prems have "Name p \<noteq> name" by auto
    moreover have "firstIndex name ps = Some i'"
      using Cons.prems Suc by (intro Cons.IH) auto
    ultimately show ?thesis using Suc by simp
  qed
qed

lemma firstIndex_distinct:
  "distinct (map Name ps) \<Longrightarrow> i < length ps \<Longrightarrow> firstIndex (Name (ps ! i)) ps = Some i"
proof (rule firstIndex_first)
  assume d: "distinct (map Name ps)" and i: "i < length ps"
  show "i < length ps" by fact
  show "Name (ps ! i) = Name (ps ! i)" by simp
  show "\<forall>j<i. Name (ps ! j) \<noteq> Name (ps ! i)"
  proof (intro allI impI)
    fix j assume "j < i"
    with d i have "map Name ps ! j \<noteq> map Name ps ! i"
      using nth_eq_iff_index_eq [of "map Name ps" j i] by simp
    with \<open>j < i\<close> i show "Name (ps ! j) \<noteq> Name (ps ! i)" by simp
  qed
qed

lemma open_last_iff:
  "(length (Logs p) > 0 \<and> time_IsZero (End (Logs p ! (length (Logs p) - 1)))) = isActive p"
  by (auto simp: isActive_def last_conv_nth)

lemma closed_last_iff:
  "(length (Logs p) = 0 \<or> \<not> time_IsZero (End (Logs p ! (length (Logs p) - 1)))) = (\<not> isActive p)"
  by (auto simp: isActive_def last_conv_nth)

lemma update_last:
  "logs \<noteq> [] \<Longrightarrow> logs[length logs - Suc 0 := e] = butlast logs @ [e]"
  by (induction logs rule: rev_induct) (simp_all add: list_update_append)

lemma nth_last: "logs \<noteq> [] \<Longrightarrow> logs ! (length logs - Suc 0) = last logs"
  by (simp add: last_conv_nth)

lemma start_None:
  "firstIndex name (Projects tracker) = None \<Longrightarrow> start name now tracker = (NotFound, tracker)"
  by (simp add: start_def)

lemma stop_None:
  "firstIndex name (Projects tracker) = None \<Longrightarrow> stop name now tracker = (NotFound, tracker)"
  by (simp add: stop_def)

lemma start_Some:
  assumes "firstIndex name (Projects tracker) = Some i"
  shows "start name now tracker =
     (if isActive (Projects tracker ! i) then (AlreadyActive, tracker)
      else (Started, tracker\<lparr>Projects := (Projects tracker)
              [i := (Projects tracker ! i)
                 \<lparr>Logs := Logs (Projects tracker ! i) @ [\<lparr>Start = now, End = 0\<rparr>]\<rparr>]\<rparr>))"
  using assms open_last_iff [of "Projects tracker ! i"]
  by (simp add: start_def Let_def)

lemma stop_Some:
  assumes "firstIndex name (Projects tracker) = Some i"
  shows "stop name now tracker =
     (if \<not> isActive (Projects tracker ! i) then (NotActive, tracker)
      else (Stopped (time_Sub now (Start (last (Logs (Projects tracker ! i)))))
              (TotalTime (Projects tracker ! i)
                 + time_Sub now (Start (last (Logs (Projects tracker ! i))))),
            tracker\<lparr>Projects := (Projects tracker)
              [i := (Projects tracker ! i)
                 \<lparr>Logs := butlast (Logs (Projects tracker ! i))
                           @ [(last (Logs (Projects tracker ! i)))\<lparr>End := now\<rparr>],
                  TotalTime := TotalTime (Projects tracker ! i)
                     + time_Sub now (Start (last (Logs (Projects tracker ! i))))\<rparr>]\<rparr>))"
proof (cases "isActive (Projects tracker ! i)")
  case False
  with assms closed_last_iff [of "Projects tracker ! i"] show ?thesis
    by (simp add: stop_def Let_def)
next
  case True
  then have ne: "Logs (Projects tracker ! i) \<noteq> []" by (simp add: isActive_def)
  from True closed_last_iff [of "Projects tracker ! i"]
  have c: "\<not> (length (Logs (Projects tracker ! i)) = 0 \<or>
     \<not> time_IsZero (End (Logs (Projects tracker ! i) ! (length (Logs (Projects tracker ! i)) - 1))))"
    by simp
  show ?thesis
    unfolding stop_def Let_def using assms True c
    by (simp add: update_last [OF ne] nth_last [OF ne])
qed

section \<open>Refused starts and stops\<close>

text \<open>
  C4. \<open>start\<close> on a name whose first matching project is Active answers
  \<open>AlreadyActive\<close> and returns the tracker it was given: no entry is appended and no
  total changes. With unique names this is every Active project of the tracker. On a name
  that no project has, \<open>start\<close> answers \<open>NotFound\<close> and returns the tracker it was
  given.
\<close>

theorem start_refused:
  "(firstIndex name (Projects tracker) = Some i \<and> isActive (Projects tracker ! i)
      \<longrightarrow> start name now tracker = (AlreadyActive, tracker))
   \<and> (distinct (map Name (Projects tracker)) \<and> p \<in> set (Projects tracker) \<and> isActive p
      \<longrightarrow> start (Name p) now tracker = (AlreadyActive, tracker))
   \<and> (name \<notin> Name ` set (Projects tracker)
      \<longrightarrow> start name now tracker = (NotFound, tracker))"
proof (intro conjI impI)
  assume "firstIndex name (Projects tracker) = Some i \<and> isActive (Projects tracker ! i)"
  then show "start name now tracker = (AlreadyActive, tracker)"
    by (simp add: start_Some)
next
  assume a: "distinct (map Name (Projects tracker)) \<and> p \<in> set (Projects tracker) \<and> isActive p"
  then obtain j where j: "j < length (Projects tracker)" "Projects tracker ! j = p"
    by (auto simp: in_set_conv_nth)
  with a have "firstIndex (Name p) (Projects tracker) = Some j"
    using firstIndex_distinct [of "Projects tracker" j] by simp
  with a j show "start (Name p) now tracker = (AlreadyActive, tracker)"
    by (simp add: start_Some)
next
  assume "name \<notin> Name ` set (Projects tracker)"
  then show "start name now tracker = (NotFound, tracker)"
    by (simp add: start_None firstIndex_None)
qed

theorem start_refused_witness:
  "start ''alpha'' (T0 + 5) alphaOpen = (AlreadyActive, alphaOpen)
   \<and> start (Name (hd (Projects alphaOpen))) (T0 + 5) alphaOpen = (AlreadyActive, alphaOpen)
   \<and> start ''gamma'' (T0 + 5) alphaOpen = (NotFound, alphaOpen)"
proof -
  have h1: "firstIndex ''alpha'' (Projects alphaOpen) = Some 0 \<and> isActive (Projects alphaOpen ! 0)"
    by (simp add: alphaOpen_def isActive_def time_IsZero_def)
  have h2: "distinct (map Name (Projects alphaOpen))
      \<and> hd (Projects alphaOpen) \<in> set (Projects alphaOpen) \<and> isActive (hd (Projects alphaOpen))"
    by (simp add: alphaOpen_def isActive_def time_IsZero_def)
  have h3: "''gamma'' \<notin> Name ` set (Projects alphaOpen)"
    by (simp add: alphaOpen_def)
  from start_refused [of "''alpha''" alphaOpen 0 "T0 + 5" "hd (Projects alphaOpen)"] h1 h2
  have "start ''alpha'' (T0 + 5) alphaOpen = (AlreadyActive, alphaOpen)"
    "start (Name (hd (Projects alphaOpen))) (T0 + 5) alphaOpen = (AlreadyActive, alphaOpen)"
    by blast+
  moreover from start_refused [of "''gamma''" alphaOpen 0 "T0 + 5" "hd (Projects alphaOpen)"] h3
  have "start ''gamma'' (T0 + 5) alphaOpen = (NotFound, alphaOpen)"
    by blast
  ultimately show ?thesis by blast
qed

text \<open>
  C5. \<open>stop\<close> on a name whose first matching project is not Active (it has no entry,
  or its last entry is closed) answers \<open>NotActive\<close> and returns the tracker it was
  given, so \<open>TotalTime\<close> and \<open>Logs\<close> are unchanged. On a name that no project has,
  \<open>stop\<close> answers \<open>NotFound\<close> and returns the tracker it was given.
\<close>

theorem stop_refused:
  "(firstIndex name (Projects tracker) = Some i \<and> \<not> isActive (Projects tracker ! i)
      \<longrightarrow> stop name now tracker = (NotActive, tracker))
   \<and> (distinct (map Name (Projects tracker)) \<and> p \<in> set (Projects tracker) \<and> \<not> isActive p
      \<longrightarrow> stop (Name p) now tracker = (NotActive, tracker))
   \<and> (name \<notin> Name ` set (Projects tracker)
      \<longrightarrow> stop name now tracker = (NotFound, tracker))"
proof (intro conjI impI)
  assume "firstIndex name (Projects tracker) = Some i \<and> \<not> isActive (Projects tracker ! i)"
  then show "stop name now tracker = (NotActive, tracker)"
    by (simp add: stop_Some)
next
  assume a: "distinct (map Name (Projects tracker)) \<and> p \<in> set (Projects tracker) \<and> \<not> isActive p"
  then obtain j where j: "j < length (Projects tracker)" "Projects tracker ! j = p"
    by (auto simp: in_set_conv_nth)
  with a have "firstIndex (Name p) (Projects tracker) = Some j"
    using firstIndex_distinct [of "Projects tracker" j] by simp
  with a j show "stop (Name p) now tracker = (NotActive, tracker)"
    by (simp add: stop_Some)
next
  assume "name \<notin> Name ` set (Projects tracker)"
  then show "stop name now tracker = (NotFound, tracker)"
    by (simp add: stop_None firstIndex_None)
qed

theorem stop_refused_witness:
  "stop ''alpha'' (T0 + 95000000000) alphaClosed = (NotActive, alphaClosed)
   \<and> stop ''beta'' (T0 + 95000000000) alphaClosed = (NotActive, alphaClosed)
   \<and> stop (Name (Projects alphaClosed ! 1)) (T0 + 95000000000) alphaClosed = (NotActive, alphaClosed)
   \<and> stop ''gamma'' (T0 + 95000000000) alphaClosed = (NotFound, alphaClosed)"
proof -
  have h1: "firstIndex ''alpha'' (Projects alphaClosed) = Some 0
      \<and> \<not> isActive (Projects alphaClosed ! 0)"
    by (simp add: alphaClosed_def isActive_def time_IsZero_def T0_def)
  have h1': "firstIndex ''beta'' (Projects alphaClosed) = Some 1
      \<and> \<not> isActive (Projects alphaClosed ! 1)"
    by (simp add: alphaClosed_def isActive_def)
  have h2: "distinct (map Name (Projects alphaClosed))
      \<and> Projects alphaClosed ! 1 \<in> set (Projects alphaClosed)
      \<and> \<not> isActive (Projects alphaClosed ! 1)"
    by (simp add: alphaClosed_def isActive_def)
  have h3: "''gamma'' \<notin> Name ` set (Projects alphaClosed)"
    by (simp add: alphaClosed_def)
  from stop_refused [of "''alpha''" alphaClosed 0 "T0 + 95000000000" "Projects alphaClosed ! 1"] h1 h2
  have "stop ''alpha'' (T0 + 95000000000) alphaClosed = (NotActive, alphaClosed)"
    "stop (Name (Projects alphaClosed ! 1)) (T0 + 95000000000) alphaClosed = (NotActive, alphaClosed)"
    by blast+
  moreover
  from stop_refused [of "''beta''" alphaClosed 1 "T0 + 95000000000" "Projects alphaClosed ! 1"] h1'
  have "stop ''beta'' (T0 + 95000000000) alphaClosed = (NotActive, alphaClosed)"
    by blast
  moreover
  from stop_refused [of "''gamma''" alphaClosed 0 "T0 + 95000000000" "Projects alphaClosed ! 1"] h3
  have "stop ''gamma'' (T0 + 95000000000) alphaClosed = (NotFound, alphaClosed)"
    by blast
  ultimately show ?thesis by blast
qed

section \<open>Facts about durations\<close>

lemma sint_of_int_64:
  "minDuration \<le> x \<Longrightarrow> x \<le> maxDuration \<Longrightarrow> sint (word_of_int x :: Duration) = x"
  by (simp add: sint_sbintrunc' signed_take_bit_int_eq_self minDuration_def maxDuration_def)

lemma sint_time_Sub:
  "sint (time_Sub t u) =
     (if t - u < minDuration then minDuration
      else if maxDuration < t - u then maxDuration else t - u)"
proof -
  have lo: "sint (word_of_int minDuration :: Duration) = minDuration"
    by (rule sint_of_int_64) (simp_all add: minDuration_def maxDuration_def)
  have hi: "sint (word_of_int maxDuration :: Duration) = maxDuration"
    by (rule sint_of_int_64) (simp_all add: minDuration_def maxDuration_def)
  have mid: "sint (word_of_int (t - u) :: Duration) = t - u"
    if "\<not> t - u < minDuration" "\<not> maxDuration < t - u"
    using that by (intro sint_of_int_64) simp_all
  show ?thesis
    unfolding time_Sub_def using lo hi mid by (simp only: if_distrib [of sint] split: if_splits) simp
qed

lemma sint_add_64:
  fixes a b :: Duration
  shows "minDuration \<le> sint a + sint b \<Longrightarrow> sint a + sint b \<le> maxDuration \<Longrightarrow>
    sint (a + b) = sint a + sint b"
  by (simp add: sint_word_add signed_take_bit_int_eq_self minDuration_def maxDuration_def)

section \<open>Stopping an open session\<close>

text \<open>
  C1, amended. When the first project named \<open>name\<close> is Active, \<open>stop name now\<close> sets
  the end of its last entry to \<open>now\<close> and leaves its other entries alone, and adds the
  duration \<open>now.Sub(start)\<close> of that entry to \<open>TotalTime\<close> (an \<^verbatim>\<open>int64\<close> addition). The
  duration is \<open>now - start\<close> whenever that fits an \<^verbatim>\<open>int64\<close>, and it is negative whenever
  \<open>now\<close> is earlier than the start. The project is Idle afterwards provided \<open>now\<close> is
  not the zero instant.
\<close>

theorem stop_closes_session:
  assumes "firstIndex name (Projects tracker) = Some i"
    and "isActive (Projects tracker ! i)"
    and "p = Projects tracker ! i"
    and "e = last (Logs p)"
    and "dur = time_Sub now (Start e)"
    and "p' = Projects (snd (stop name now tracker)) ! i"
  shows "fst (stop name now tracker) = Stopped dur (TotalTime p')
    \<and> Logs p' = butlast (Logs p) @ [\<lparr>Start = Start e, End = now\<rparr>]
    \<and> TotalTime p' = TotalTime p + dur
    \<and> Name p' = Name p
    \<and> (now \<noteq> 0 \<longrightarrow> \<not> isActive p' \<and> stateOf p' = Idle)
    \<and> (minDuration \<le> now - Start e \<and> now - Start e \<le> maxDuration \<longrightarrow> sint dur = now - Start e)
    \<and> (now < Start e \<longrightarrow> sint dur < 0)"
proof -
  from assms(1) have i: "i < length (Projects tracker)"
    by (simp add: firstIndex_Some)
  have e: "e\<lparr>End := now\<rparr> = \<lparr>Start = Start e, End = now\<rparr>" by simp
  from assms i e have p': "p' = p\<lparr>Logs := butlast (Logs p) @ [\<lparr>Start = Start e, End = now\<rparr>],
      TotalTime := TotalTime p + dur\<rparr>"
    by (simp add: stop_Some)
  from assms have out: "fst (stop name now tracker) = Stopped dur (TotalTime p + dur)"
    by (simp add: stop_Some)
  have neg: "sint dur < 0" if "now < Start e"
    using that assms(5) by (simp add: sint_time_Sub minDuration_def maxDuration_def)
  have exact: "sint dur = now - Start e"
    if "minDuration \<le> now - Start e \<and> now - Start e \<le> maxDuration"
    using that assms(5) by (simp add: sint_time_Sub)
  have idle: "\<not> isActive p' \<and> stateOf p' = Idle" if "now \<noteq> 0"
    using that p' by (simp add: isActive_def stateOf_def time_IsZero_def)
  from p' out neg exact idle show ?thesis by simp
qed

theorem stop_closes_session_witness:
  "fst (stop ''alpha'' (T0 + 90000000000) alphaOpen) = Stopped 90000000000 90000000000
   \<and> Logs (Projects (snd (stop ''alpha'' (T0 + 90000000000) alphaOpen)) ! 0)
       = [\<lparr>Start = T0, End = T0 + 90000000000\<rparr>]
   \<and> TotalTime (Projects (snd (stop ''alpha'' (T0 + 90000000000) alphaOpen)) ! 0) = 90000000000
   \<and> stateOf (Projects (snd (stop ''alpha'' (T0 + 90000000000) alphaOpen)) ! 0) = Idle
   \<and> sint (time_Sub T0 (T0 + 90000000000)) < 0"
proof -
  have h1: "firstIndex ''alpha'' (Projects alphaOpen) = Some 0"
    by (simp add: alphaOpen_def)
  have h2: "isActive (Projects alphaOpen ! 0)"
    by (simp add: alphaOpen_def isActive_def time_IsZero_def)
  have l: "last (Logs (Projects alphaOpen ! 0)) = \<lparr>Start = T0, End = 0\<rparr>"
    by (simp add: alphaOpen_def)
  have d: "time_Sub (T0 + 90000000000) T0 = 90000000000"
    by (simp add: time_Sub_def minDuration_def maxDuration_def)
  have n: "T0 + 90000000000 \<noteq> 0" by (simp add: T0_def)
  have t: "TotalTime (Projects alphaOpen ! 0) = 0" "Logs (Projects alphaOpen ! 0) = [\<lparr>Start = T0, End = 0\<rparr>]"
    by (simp_all add: alphaOpen_def)
  from stop_closes_session [OF h1 h2 refl refl refl refl, of "T0 + 90000000000"]
  have a: "fst (stop ''alpha'' (T0 + 90000000000) alphaOpen) = Stopped 90000000000 90000000000
   \<and> Logs (Projects (snd (stop ''alpha'' (T0 + 90000000000) alphaOpen)) ! 0)
       = [\<lparr>Start = T0, End = T0 + 90000000000\<rparr>]
   \<and> TotalTime (Projects (snd (stop ''alpha'' (T0 + 90000000000) alphaOpen)) ! 0) = 90000000000
   \<and> stateOf (Projects (snd (stop ''alpha'' (T0 + 90000000000) alphaOpen)) ! 0) = Idle"
    using n by (simp add: l d t)
  have h1': "firstIndex ''alpha'' (Projects alphaOpen) = Some 0" by (simp add: alphaOpen_def)
  have lt: "T0 < T0 + 90000000000" by simp
  have l2: "last (Logs (Projects \<lparr>Projects = [\<lparr>Name = ''alpha'',
      Logs = [\<lparr>Start = T0 + 90000000000, End = 0\<rparr>], TotalTime = 0\<rparr>]\<rparr> ! 0))
       = \<lparr>Start = T0 + 90000000000, End = 0\<rparr>" by simp
  from stop_closes_session [of "''alpha''" "\<lparr>Projects = [\<lparr>Name = ''alpha'',
      Logs = [\<lparr>Start = T0 + 90000000000, End = 0\<rparr>], TotalTime = 0\<rparr>]\<rparr>" 0, OF _ _ refl refl refl refl, of T0]
  have b: "sint (time_Sub T0 (T0 + 90000000000)) < 0"
    by (simp add: isActive_def time_IsZero_def)
  from a b show ?thesis by blast
qed

text \<open>
  C1 as stated fails when \<open>now\<close> is the zero instant: the end written is the very value
  that marks an entry as open, so the project is still Active after the stop.
\<close>

theorem stop_at_zero_instant_stays_active:
  "isActive (Projects alphaOpen ! 0)
   \<and> fst (stop ''alpha'' 0 alphaOpen) = Stopped (word_of_int minDuration) (word_of_int minDuration)
   \<and> isActive (Projects (snd (stop ''alpha'' 0 alphaOpen)) ! 0)
   \<and> stateOf (Projects (snd (stop ''alpha'' 0 alphaOpen)) ! 0) \<noteq> Idle"
  by (simp add: alphaOpen_def stop_def Let_def isActive_def stateOf_def time_IsZero_def time_Sub_def
      minDuration_def maxDuration_def T0_def)

section \<open>What a successful start or stop leaves alone\<close>

text \<open>
  C9. A successful \<open>start\<close> or \<open>stop\<close> on \<open>name\<close> changes only the first project
  whose name is \<open>name\<close>: the sequence keeps its length, every other project is the
  same at the same position, and the names are the same in the same order. In the changed
  project \<open>start\<close> appends one open entry after the old entries and keeps the total;
  \<open>stop\<close> keeps every entry but the last, and in the last changes the end only.
\<close>

theorem start_stop_frame:
  "(start name now tracker = (Started, tracker') \<longrightarrow>
      (\<exists>i. firstIndex name (Projects tracker) = Some i
         \<and> i < length (Projects tracker) \<and> Name (Projects tracker ! i) = name
         \<and> (\<forall>j<i. Name (Projects tracker ! j) \<noteq> name)
         \<and> length (Projects tracker') = length (Projects tracker)
         \<and> (\<forall>j<length (Projects tracker). j \<noteq> i \<longrightarrow> Projects tracker' ! j = Projects tracker ! j)
         \<and> map Name (Projects tracker') = map Name (Projects tracker)
         \<and> Logs (Projects tracker' ! i) = Logs (Projects tracker ! i) @ [\<lparr>Start = now, End = 0\<rparr>]
         \<and> TotalTime (Projects tracker' ! i) = TotalTime (Projects tracker ! i)))
   \<and> (stop name now tracker = (Stopped d t, tracker') \<longrightarrow>
      (\<exists>i. firstIndex name (Projects tracker) = Some i
         \<and> i < length (Projects tracker) \<and> Name (Projects tracker ! i) = name
         \<and> (\<forall>j<i. Name (Projects tracker ! j) \<noteq> name)
         \<and> length (Projects tracker') = length (Projects tracker)
         \<and> (\<forall>j<length (Projects tracker). j \<noteq> i \<longrightarrow> Projects tracker' ! j = Projects tracker ! j)
         \<and> map Name (Projects tracker') = map Name (Projects tracker)
         \<and> Logs (Projects tracker ! i) \<noteq> []
         \<and> length (Logs (Projects tracker' ! i)) = length (Logs (Projects tracker ! i))
         \<and> butlast (Logs (Projects tracker' ! i)) = butlast (Logs (Projects tracker ! i))
         \<and> last (Logs (Projects tracker' ! i)) = (last (Logs (Projects tracker ! i)))\<lparr>End := now\<rparr>))"
proof (intro conjI impI)
  assume a: "start name now tracker = (Started, tracker')"
  then obtain i where fi: "firstIndex name (Projects tracker) = Some i"
    by (cases "firstIndex name (Projects tracker)") (auto simp: start_None)
  note f = firstIndex_Some [OF fi]
  from a fi have na: "\<not> isActive (Projects tracker ! i)"
    by (auto simp: start_Some split: if_splits)
  with a fi have t': "tracker' = tracker\<lparr>Projects := (Projects tracker)
      [i := (Projects tracker ! i)\<lparr>Logs := Logs (Projects tracker ! i) @ [\<lparr>Start = now, End = 0\<rparr>]\<rparr>]\<rparr>"
    by (simp add: start_Some)
  have names: "map Name (Projects tracker') = map Name (Projects tracker)"
    using f unfolding t' by (simp add: map_update list_update_same_conv)
  show "\<exists>i. firstIndex name (Projects tracker) = Some i
         \<and> i < length (Projects tracker) \<and> Name (Projects tracker ! i) = name
         \<and> (\<forall>j<i. Name (Projects tracker ! j) \<noteq> name)
         \<and> length (Projects tracker') = length (Projects tracker)
         \<and> (\<forall>j<length (Projects tracker). j \<noteq> i \<longrightarrow> Projects tracker' ! j = Projects tracker ! j)
         \<and> map Name (Projects tracker') = map Name (Projects tracker)
         \<and> Logs (Projects tracker' ! i) = Logs (Projects tracker ! i) @ [\<lparr>Start = now, End = 0\<rparr>]
         \<and> TotalTime (Projects tracker' ! i) = TotalTime (Projects tracker ! i)"
    using fi f names by (intro exI [of _ i]) (simp add: t')
next
  assume a: "stop name now tracker = (Stopped d t, tracker')"
  then obtain i where fi: "firstIndex name (Projects tracker) = Some i"
    by (cases "firstIndex name (Projects tracker)") (auto simp: stop_None)
  note f = firstIndex_Some [OF fi]
  from a fi have act: "isActive (Projects tracker ! i)"
    by (auto simp: stop_Some split: if_splits)
  then have ne: "Logs (Projects tracker ! i) \<noteq> []" by (simp add: isActive_def)
  from act a fi have t': "tracker' = tracker\<lparr>Projects := (Projects tracker)
      [i := (Projects tracker ! i)
         \<lparr>Logs := butlast (Logs (Projects tracker ! i))
                   @ [(last (Logs (Projects tracker ! i)))\<lparr>End := now\<rparr>],
          TotalTime := TotalTime (Projects tracker ! i)
             + time_Sub now (Start (last (Logs (Projects tracker ! i))))\<rparr>]\<rparr>"
    by (auto simp: stop_Some)
  have names: "map Name (Projects tracker') = map Name (Projects tracker)"
    using f unfolding t' by (simp add: map_update list_update_same_conv)
  show "\<exists>i. firstIndex name (Projects tracker) = Some i
         \<and> i < length (Projects tracker) \<and> Name (Projects tracker ! i) = name
         \<and> (\<forall>j<i. Name (Projects tracker ! j) \<noteq> name)
         \<and> length (Projects tracker') = length (Projects tracker)
         \<and> (\<forall>j<length (Projects tracker). j \<noteq> i \<longrightarrow> Projects tracker' ! j = Projects tracker ! j)
         \<and> map Name (Projects tracker') = map Name (Projects tracker)
         \<and> Logs (Projects tracker ! i) \<noteq> []
         \<and> length (Logs (Projects tracker' ! i)) = length (Logs (Projects tracker ! i))
         \<and> butlast (Logs (Projects tracker' ! i)) = butlast (Logs (Projects tracker ! i))
         \<and> last (Logs (Projects tracker' ! i)) = (last (Logs (Projects tracker ! i)))\<lparr>End := now\<rparr>"
    using fi f names ne by (intro exI [of _ i]) (simp add: t')
qed

theorem start_stop_frame_witness:
  "Projects (snd (start ''beta'' (T0 + 100000000000) alphaClosed)) ! 0 = Projects alphaClosed ! 0
   \<and> map Name (Projects (snd (start ''beta'' (T0 + 100000000000) alphaClosed))) = [''alpha'', ''beta'']
   \<and> Logs (Projects (snd (start ''beta'' (T0 + 100000000000) alphaClosed)) ! 1)
        = [\<lparr>Start = T0 + 100000000000, End = 0\<rparr>]
   \<and> Projects (snd (stop ''alpha'' (T0 + 130000000000) bothOpen)) ! 1 = Projects bothOpen ! 1
   \<and> map Name (Projects (snd (stop ''alpha'' (T0 + 130000000000) bothOpen))) = [''alpha'', ''beta'']
   \<and> butlast (Logs (Projects (snd (stop ''alpha'' (T0 + 130000000000) bothOpen)) ! 0))
        = [\<lparr>Start = T0, End = T0 + 90000000000\<rparr>]
   \<and> last (Logs (Projects (snd (stop ''alpha'' (T0 + 130000000000) bothOpen)) ! 0))
        = \<lparr>Start = T0 + 100000000000, End = T0 + 130000000000\<rparr>"
proof -
  let ?t1 = "T0 + 100000000000" and ?t2 = "T0 + 130000000000"
  have f1: "firstIndex ''beta'' (Projects alphaClosed) = Some 1"
    by (simp add: alphaClosed_def)
  have s1: "start ''beta'' ?t1 alphaClosed = (Started, snd (start ''beta'' ?t1 alphaClosed))"
    by (simp add: start_Some [OF f1]) (simp add: alphaClosed_def isActive_def)
  have f2: "firstIndex ''alpha'' (Projects bothOpen) = Some 0"
    by (simp add: bothOpen_def)
  have s2: "stop ''alpha'' ?t2 bothOpen
      = (Stopped 30000000000 120000000000, snd (stop ''alpha'' ?t2 bothOpen))"
    by (simp add: stop_Some [OF f2])
      (simp add: bothOpen_def isActive_def time_IsZero_def time_Sub_def minDuration_def maxDuration_def)
  from start_stop_frame [of "''beta''" ?t1 alphaClosed "snd (start ''beta'' ?t1 alphaClosed)"] s1 f1
  have a: "Projects (snd (start ''beta'' ?t1 alphaClosed)) ! 0 = Projects alphaClosed ! 0
    \<and> map Name (Projects (snd (start ''beta'' ?t1 alphaClosed))) = [''alpha'', ''beta'']
    \<and> Logs (Projects (snd (start ''beta'' ?t1 alphaClosed)) ! 1) = [\<lparr>Start = ?t1, End = 0\<rparr>]"
    by (auto simp: alphaClosed_def)
  from start_stop_frame [of "''alpha''" ?t2 bothOpen "snd (stop ''alpha'' ?t2 bothOpen)"
      30000000000 120000000000] s2 f2
  have b: "Projects (snd (stop ''alpha'' ?t2 bothOpen)) ! 1 = Projects bothOpen ! 1
   \<and> map Name (Projects (snd (stop ''alpha'' ?t2 bothOpen))) = [''alpha'', ''beta'']
   \<and> butlast (Logs (Projects (snd (stop ''alpha'' ?t2 bothOpen)) ! 0))
        = [\<lparr>Start = T0, End = T0 + 90000000000\<rparr>]
   \<and> last (Logs (Projects (snd (stop ''alpha'' ?t2 bothOpen)) ! 0))
        = \<lparr>Start = T0 + 100000000000, End = T0 + 130000000000\<rparr>"
    by (auto simp: bothOpen_def)
  from a b show ?thesis by blast
qed

section \<open>Facts about the reading commands\<close>

lemma reads_isActive: "reads p = (if isActive p then 1 else 0)"
  using open_last_iff [of p] by (simp add: reads_def)

lemma timeOf_isActive:
  "timeOf now p =
     (if isActive p then TotalTime p + time_Sub now (Start (last (Logs p))) else TotalTime p)"
proof (cases "isActive p")
  case True
  then have "Logs p \<noteq> []" by (simp add: isActive_def)
  with True open_last_iff [of p] show ?thesis
    by (simp add: timeOf_def Let_def nth_last)
next
  case False
  with open_last_iff [of p] show ?thesis by (auto simp: timeOf_def Let_def)
qed

lemma status_names: "map fst (status clk k ps) = map Name (filter isActive ps)"
proof (induction ps arbitrary: k)
  case Nil
  show ?case by simp
next
  case (Cons p ps)
  from open_last_iff [of p] Cons.IH show ?case by (simp add: Let_def)
qed

lemma length_reportRows: "length (reportRows clk k totalAll ps) = length ps"
  by (induction ps arbitrary: k) (simp_all add: Let_def)

lemma reportRows_nth:
  "j < length ps \<Longrightarrow>
   reportRows clk k totalAll ps ! j =
     \<lparr>RowName = Name (ps ! j), Sessions = length (Logs (ps ! j)),
      RowTime = timeOf (clk (k + length (filter isActive (take j ps)))) (ps ! j),
      Percent = percentOf (timeOf (clk (k + length (filter isActive (take j ps)))) (ps ! j)) totalAll\<rparr>"
proof (induction ps arbitrary: k j)
  case Nil
  then show ?case by simp
next
  case (Cons p ps)
  show ?case
  proof (cases j)
    case 0
    then show ?thesis by (simp add: Let_def)
  next
    case (Suc j')
    with Cons.prems have "j' < length ps" by simp
    from Cons.IH [OF this, of "k + reads p"] Suc show ?thesis
      by (simp add: Let_def reads_isActive add.assoc)
  qed
qed

lemma grandTotal_rows:
  "grandTotal clk k ps acc =
     (acc + sum_list (map RowTime (reportRows clk k totalAll ps)), k + length (filter isActive ps))"
proof (induction ps arbitrary: k acc)
  case Nil
  show ?case by simp
next
  case (Cons p ps)
  show ?case
    by (simp add: Cons.IH Let_def reads_isActive add.assoc)
qed

lemma length_statsRows: "length (statsRows clk k i es) = length es"
  by (induction es arbitrary: k i) (simp_all add: Let_def)

lemma statsRows_nth:
  "j < length es \<Longrightarrow>
   statsRows clk k i es ! j =
     (if time_IsZero (End (es ! j))
      then \<lparr>Ordinal = i + j + 1, RowStart = Start (es ! j), RowEnd = None,
            RowDur = time_Sub (clk (k + j)) (Start (es ! j))\<rparr>
      else \<lparr>Ordinal = i + j + 1, RowStart = Start (es ! j), RowEnd = Some (End (es ! j)),
            RowDur = time_Sub (End (es ! j)) (Start (es ! j))\<rparr>)"
proof (induction es arbitrary: k i j)
  case Nil
  then show ?case by simp
next
  case (Cons e es)
  show ?case
  proof (cases j)
    case 0
    then show ?thesis by (simp add: Let_def time_Since_def)
  next
    case (Suc j')
    with Cons.prems have "j' < length es" by simp
    from Cons.IH [OF this, of "k + 1" "i + 1"] Suc show ?thesis
      by (simp add: Let_def)
  qed
qed

lemma statsRows_last_open:
  "(statsRows clk k i (Logs p) \<noteq> [] \<and> RowEnd (last (statsRows clk k i (Logs p))) = None)
     = isActive p"
proof (cases "Logs p = []")
  case True
  then show ?thesis by (simp add: isActive_def)
next
  case False
  then have ne: "statsRows clk k i (Logs p) \<noteq> []"
    using length_statsRows [of clk k i "Logs p"] by auto
  from False have lt: "length (Logs p) - 1 < length (Logs p)" by simp
  have "last (statsRows clk k i (Logs p)) = statsRows clk k i (Logs p) ! (length (Logs p) - 1)"
    using ne by (simp add: last_conv_nth length_statsRows)
  with statsRows_nth [OF lt, of clk k i] False ne show ?thesis
    by (simp add: isActive_def last_conv_nth)
qed

lemma report_Some:
  "Projects tracker \<noteq> [] \<Longrightarrow>
   report clk k tracker =
     Some (reportRows clk (k + length (filter isActive (Projects tracker)))
             (sum_list (map RowTime (reportRows clk k 0 (Projects tracker)))) (Projects tracker),
           sum_list (map RowTime (reportRows clk k 0 (Projects tracker))))"
  by (simp add: report_def grandTotal_rows [of clk k "Projects tracker" 0 0])

lemma sum_RowTime:
  "sum_list (map RowTime (reportRows clk k totalAll ps)) =
     (\<Sum>j<length ps. timeOf (clk (k + length (filter isActive (take j ps)))) (ps ! j))"
proof -
  have "sum_list (map RowTime (reportRows clk k totalAll ps)) =
      (\<Sum>j = 0..<length ps. map RowTime (reportRows clk k totalAll ps) ! j)"
    by (simp add: sum_list_sum_nth length_reportRows)
  also have "\<dots> = (\<Sum>j = 0..<length ps. timeOf (clk (k + length (filter isActive (take j ps)))) (ps ! j))"
    by (rule sum.cong) (simp_all add: length_reportRows reportRows_nth)
  finally show ?thesis by (simp add: lessThan_atLeast0)
qed

section \<open>One predicate decides activity\<close>

text \<open>
  C3. A project is Active exactly when its log sequence is non-empty and the end of its
  last entry is the absent (zero) value, and Idle otherwise, so exactly one of the two
  holds. Every command that asks decides by this predicate: \<open>start\<close> refuses exactly the
  Active project and \<open>stop\<close> exactly the Idle one, \<open>status\<close> lists exactly the Active
  projects, \<open>stats\<close> shows the last row as open exactly for an Active project, and both
  loops of \<open>report\<close> add the time since the last start exactly for an Active project.
\<close>

theorem activity_predicate:
  "(stateOf p = Active) = (Logs p \<noteq> [] \<and> End (last (Logs p)) = 0)
   \<and> (stateOf p = Idle) = (Logs p = [] \<or> End (last (Logs p)) \<noteq> 0)
   \<and> (stateOf p = Active) \<noteq> (stateOf p = Idle)
   \<and> isActive p = (stateOf p = Active)
   \<and> (firstIndex name (Projects tracker) = Some i \<longrightarrow>
        (fst (start name now tracker) = AlreadyActive) = isActive (Projects tracker ! i)
      \<and> (fst (start name now tracker) = Started) = (\<not> isActive (Projects tracker ! i))
      \<and> (fst (stop name now tracker) = NotActive) = (\<not> isActive (Projects tracker ! i))
      \<and> (\<exists>d t. fst (stop name now tracker) = Stopped d t) = isActive (Projects tracker ! i)
      \<and> (\<exists>rows. stats name clk k tracker
             = Some (length (Logs (Projects tracker ! i)), TotalTime (Projects tracker ! i), rows)
           \<and> (rows \<noteq> [] \<and> RowEnd (last rows) = None) = isActive (Projects tracker ! i)))
   \<and> map fst (status clk k (Projects tracker)) = map Name (filter isActive (Projects tracker))
   \<and> (report clk k tracker = Some (rows, totalAll) \<longrightarrow>
        length rows = length (Projects tracker)
      \<and> totalAll = (\<Sum>j<length (Projects tracker). TotalTime (Projects tracker ! j) +
           (if isActive (Projects tracker ! j)
            then time_Sub (clk (k + length (filter isActive (take j (Projects tracker)))))
                   (Start (last (Logs (Projects tracker ! j))))
            else 0))
      \<and> (\<forall>j<length (Projects tracker). RowTime (rows ! j) = TotalTime (Projects tracker ! j) +
           (if isActive (Projects tracker ! j)
            then time_Sub (clk (k + length (filter isActive (Projects tracker))
                     + length (filter isActive (take j (Projects tracker)))))
                   (Start (last (Logs (Projects tracker ! j))))
            else 0)))"
proof -
  have st: "(stateOf p = Active) = (Logs p \<noteq> [] \<and> End (last (Logs p)) = 0)"
    "(stateOf p = Idle) = (Logs p = [] \<or> End (last (Logs p)) \<noteq> 0)"
    "(stateOf p = Active) \<noteq> (stateOf p = Idle)"
    "isActive p = (stateOf p = Active)"
    by (simp_all add: stateOf_def isActive_def time_IsZero_def)
  have cmd: "(fst (start name now tracker) = AlreadyActive) = isActive (Projects tracker ! i)
      \<and> (fst (start name now tracker) = Started) = (\<not> isActive (Projects tracker ! i))
      \<and> (fst (stop name now tracker) = NotActive) = (\<not> isActive (Projects tracker ! i))
      \<and> (\<exists>d t. fst (stop name now tracker) = Stopped d t) = isActive (Projects tracker ! i)
      \<and> (\<exists>rows. stats name clk k tracker
             = Some (length (Logs (Projects tracker ! i)), TotalTime (Projects tracker ! i), rows)
           \<and> (rows \<noteq> [] \<and> RowEnd (last rows) = None) = isActive (Projects tracker ! i))"
    if fi: "firstIndex name (Projects tracker) = Some i"
  proof -
    have "stats name clk k tracker
        = Some (length (Logs (Projects tracker ! i)), TotalTime (Projects tracker ! i),
                statsRows clk k 0 (Logs (Projects tracker ! i)))"
      using fi by (simp add: stats_def Let_def)
    then have "\<exists>rows. stats name clk k tracker
             = Some (length (Logs (Projects tracker ! i)), TotalTime (Projects tracker ! i), rows)
           \<and> (rows \<noteq> [] \<and> RowEnd (last rows) = None) = isActive (Projects tracker ! i)"
      using statsRows_last_open [of clk k 0 "Projects tracker ! i"] by simp
    then show ?thesis by (simp add: start_Some [OF fi] stop_Some [OF fi])
  qed
  have rep: "length rows = length (Projects tracker)
      \<and> totalAll = (\<Sum>j<length (Projects tracker). TotalTime (Projects tracker ! j) +
           (if isActive (Projects tracker ! j)
            then time_Sub (clk (k + length (filter isActive (take j (Projects tracker)))))
                   (Start (last (Logs (Projects tracker ! j))))
            else 0))
      \<and> (\<forall>j<length (Projects tracker). RowTime (rows ! j) = TotalTime (Projects tracker ! j) +
           (if isActive (Projects tracker ! j)
            then time_Sub (clk (k + length (filter isActive (Projects tracker))
                     + length (filter isActive (take j (Projects tracker)))))
                   (Start (last (Logs (Projects tracker ! j))))
            else 0))"
    if r: "report clk k tracker = Some (rows, totalAll)"
  proof -
    from r have ne: "Projects tracker \<noteq> []" by (auto simp: report_def split: if_splits)
    from r report_Some [OF ne, of clk k]
    have rows: "rows = reportRows clk (k + length (filter isActive (Projects tracker))) totalAll
          (Projects tracker)"
      and tot: "totalAll = sum_list (map RowTime (reportRows clk k 0 (Projects tracker)))"
      by auto
    have t: "timeOf t q = TotalTime q + (if isActive q then time_Sub t (Start (last (Logs q))) else 0)"
      for t q by (simp add: timeOf_isActive)
    show ?thesis
      unfolding tot sum_RowTime rows by (simp add: length_reportRows reportRows_nth t)
  qed
  from st cmd rep status_names [of clk k "Projects tracker"] show ?thesis by blast
qed

theorem activity_predicate_witness:
  "stateOf (Projects bothOpen ! 0) = Active
   \<and> fst (start ''alpha'' (tick 0) bothOpen) = AlreadyActive
   \<and> fst (stop ''alpha'' (tick 0) bothOpen) \<noteq> NotActive
   \<and> stats ''alpha'' tick 1 bothOpen \<noteq> None
   \<and> length (fst (the (report tick 1 bothOpen))) = 2
   \<and> RowTime (fst (the (report tick 1 bothOpen)) ! 1) = 159999999999"
proof -
  have f: "firstIndex ''alpha'' (Projects bothOpen) = Some 0"
    by (simp add: bothOpen_def)
  have a: "isActive (Projects bothOpen ! 0)" "isActive (Projects bothOpen ! 1)"
    by (simp_all add: bothOpen_def isActive_def time_IsZero_def)
  have r: "report tick 1 bothOpen = Some (fst (the (report tick 1 bothOpen)), snd (the (report tick 1 bothOpen)))"
    by (simp add: report_def bothOpen_def split: prod.splits)
  have fl: "filter isActive (Projects bothOpen) = Projects bothOpen"
    "filter isActive (take 1 (Projects bothOpen)) = take 1 (Projects bothOpen)"
    by (simp_all add: bothOpen_def isActive_def time_IsZero_def)
  have len: "length (Projects bothOpen) = 2" "length (take 1 (Projects bothOpen)) = 1"
    by (simp_all add: bothOpen_def)
  have s: "time_Sub (tick (Suc (Suc (Suc (Suc 0))))) (Start (last (Logs (Projects bothOpen ! 1)))) = 159999999999"
    by (simp add: bothOpen_def tick_def time_Sub_def minDuration_def maxDuration_def)
  have tt: "TotalTime (Projects bothOpen ! 1) = 0" by (simp add: bothOpen_def)
  note w = activity_predicate [of "Projects bothOpen ! 0" "''alpha''" bothOpen 0 "tick 0" tick 1
      "fst (the (report tick 1 bothOpen))" "snd (the (report tick 1 bothOpen))"]
  from w a(1) have "stateOf (Projects bothOpen ! 0) = Active" by blast
  moreover from w f a(1) have "fst (start ''alpha'' (tick 0) bothOpen) = AlreadyActive" by blast
  moreover from w f a(1) have "fst (stop ''alpha'' (tick 0) bothOpen) \<noteq> NotActive" by blast
  moreover from w f have "stats ''alpha'' tick 1 bothOpen \<noteq> None" by auto
  moreover from w r have "length (fst (the (report tick 1 bothOpen))) = 2"
    using len by simp
  moreover from w r have "RowTime (fst (the (report tick 1 bothOpen)) ! 1)
      = TotalTime (Projects bothOpen ! 1) + time_Sub (tick (1 + 2 + 1)) (Start (last (Logs (Projects bothOpen ! 1))))"
    using a(2) len fl by simp
  ultimately show ?thesis using s tt by simp
qed

section \<open>At most one open entry, and it is the last\<close>

lemma list_all_update:
  "list_all P xs \<Longrightarrow> P x \<Longrightarrow> list_all P (xs[i := x])"
  using set_update_subset_insert [of xs i x] by (auto simp: list_all_iff)

lemma list_all_take: "list_all P xs \<Longrightarrow> list_all P (take i xs)"
  by (auto simp: list_all_iff dest: in_set_takeD)

lemma list_all_drop: "list_all P xs \<Longrightarrow> list_all P (drop i xs)"
  by (auto simp: list_all_iff dest: in_set_dropD)

lemma wellFormedLogs_open_last:
  "wellFormedLogs logs =
     (\<forall>j<length logs. time_IsZero (End (logs ! j)) \<longrightarrow> j = length logs - 1)"
proof (cases "logs = []")
  case True
  then show ?thesis by (simp add: wellFormedLogs_def)
next
  case False
  then obtain es e where logs: "logs = es @ [e]"
    by (cases logs rule: rev_cases) auto
  have "list_all (\<lambda>e. \<not> time_IsZero (End e)) es
      = (\<forall>j<Suc (length es). time_IsZero (End ((es @ [e]) ! j)) \<longrightarrow> j = length es)"
    by (auto simp: list_all_length nth_append less_Suc_eq)
  then show ?thesis by (simp add: wellFormedLogs_def logs)
qed

lemma wellFormedLogs_count:
  "wellFormedLogs logs \<Longrightarrow> length (filter (\<lambda>e. time_IsZero (End e)) logs) \<le> 1"
proof (cases "logs = []")
  case True
  then show ?thesis by simp
next
  case False
  assume wf: "wellFormedLogs logs"
  from False obtain es e where logs: "logs = es @ [e]"
    by (cases logs rule: rev_cases) auto
  from wf have "filter (\<lambda>e. time_IsZero (End e)) es = []"
    by (simp add: wellFormedLogs_def logs list_all_iff filter_empty_conv)
  then show ?thesis by (simp add: logs)
qed

lemma wellFormed_create: "wellFormed tracker \<Longrightarrow> wellFormed (snd (create name tracker))"
  by (simp add: create_def wellFormed_def wellFormedLogs_def)

lemma wellFormed_delete: "wellFormed tracker \<Longrightarrow> wellFormed (snd (delete name r tracker))"
  by (auto simp: delete_def wellFormed_def list_all_take list_all_drop split: option.splits)

lemma wellFormed_start:
  assumes "wellFormed tracker"
  shows "wellFormed (snd (start name now tracker))"
proof (cases "firstIndex name (Projects tracker)")
  case None
  with assms show ?thesis by (simp add: start_None)
next
  case (Some i)
  then have i: "i < length (Projects tracker)" by (simp add: firstIndex_Some)
  show ?thesis
  proof (cases "isActive (Projects tracker ! i)")
    case True
    with Some assms show ?thesis by (simp add: start_Some)
  next
    case False
    from assms i have wf: "wellFormedLogs (Logs (Projects tracker ! i))"
      by (simp add: wellFormed_def list_all_length)
    have "list_all (\<lambda>e. \<not> time_IsZero (End e)) (Logs (Projects tracker ! i))"
    proof (cases "Logs (Projects tracker ! i) = []")
      case True
      then show ?thesis by simp
    next
      case ne: False
      then have "Logs (Projects tracker ! i)
          = butlast (Logs (Projects tracker ! i)) @ [last (Logs (Projects tracker ! i))]"
        by simp
      moreover from False ne have "\<not> time_IsZero (End (last (Logs (Projects tracker ! i))))"
        by (simp add: isActive_def)
      ultimately show ?thesis
        using wf unfolding wellFormedLogs_def
        by (metis list.pred_inject(1) list.pred_inject(2) list_all_append)
    qed
    then have "wellFormedLogs (Logs (Projects tracker ! i) @ [\<lparr>Start = now, End = 0\<rparr>])"
      by (simp add: wellFormedLogs_def)
    with assms False Some show ?thesis
      by (simp add: start_Some wellFormed_def list_all_update)
  qed
qed

lemma wellFormed_stop:
  assumes "wellFormed tracker"
  shows "wellFormed (snd (stop name now tracker))"
proof (cases "firstIndex name (Projects tracker)")
  case None
  with assms show ?thesis by (simp add: stop_None)
next
  case (Some i)
  then have i: "i < length (Projects tracker)" by (simp add: firstIndex_Some)
  from assms i have wf: "wellFormedLogs (Logs (Projects tracker ! i))"
    by (simp add: wellFormed_def list_all_length)
  then have "wellFormedLogs (butlast (Logs (Projects tracker ! i)) @ [e])" for e
    by (simp add: wellFormedLogs_def)
  with assms Some show ?thesis
    by (simp add: stop_Some wellFormed_def list_all_update)
qed

lemma wellFormed_exec: "wellFormed tracker \<Longrightarrow> wellFormed (snd (exec now c tracker))"
  by (cases c) (simp_all add: wellFormed_create wellFormed_delete wellFormed_start wellFormed_stop)

lemma wellFormed_runAll: "wellFormed tracker \<Longrightarrow> wellFormed (runAll cs tracker)"
  by (induction cs arbitrary: tracker) (auto simp: wellFormed_exec)

text \<open>
  C6. Every tracker that a run of the program reaches from the empty tracker has, in every
  project, at most one open entry, and an open entry is the last entry. Each of the four
  mutating commands preserves this: \<open>start\<close> appends its open entry only when there is no
  entry or the last is closed, and \<open>stop\<close> writes to the last entry only.
\<close>

theorem one_open_entry_last:
  "wellFormed (runAll cs emptyTracker)
   \<and> (wellFormed tracker \<longrightarrow>
        wellFormed (snd (create name tracker)) \<and> wellFormed (snd (delete name r tracker))
      \<and> wellFormed (snd (start name now tracker)) \<and> wellFormed (snd (stop name now tracker)))
   \<and> (wellFormed tracker \<longrightarrow>
        (\<forall>p\<in>set (Projects tracker).
           length (filter (\<lambda>e. time_IsZero (End e)) (Logs p)) \<le> 1
         \<and> (\<forall>j<length (Logs p). time_IsZero (End (Logs p ! j)) \<longrightarrow> j = length (Logs p) - 1)))"
proof -
  have "wellFormed emptyTracker" by (simp add: wellFormed_def emptyTracker_def)
  then have "wellFormed (runAll cs emptyTracker)" by (rule wellFormed_runAll)
  moreover have "\<forall>p\<in>set (Projects tracker).
           length (filter (\<lambda>e. time_IsZero (End e)) (Logs p)) \<le> 1
         \<and> (\<forall>j<length (Logs p). time_IsZero (End (Logs p ! j)) \<longrightarrow> j = length (Logs p) - 1)"
    if "wellFormed tracker"
  proof
    fix p assume "p \<in> set (Projects tracker)"
    with that have "wellFormedLogs (Logs p)" by (simp add: wellFormed_def list_all_iff)
    then show "length (filter (\<lambda>e. time_IsZero (End e)) (Logs p)) \<le> 1
         \<and> (\<forall>j<length (Logs p). time_IsZero (End (Logs p ! j)) \<longrightarrow> j = length (Logs p) - 1)"
      using wellFormedLogs_count [of "Logs p"] wellFormedLogs_open_last [of "Logs p"] by blast
  qed
  ultimately show ?thesis
    using wellFormed_create wellFormed_delete wellFormed_start wellFormed_stop by blast
qed

lemma sampleRun_result:
  "runAll sampleRun emptyTracker =
     \<lparr>Projects = [\<lparr>Name = ''alpha'',
        Logs = [\<lparr>Start = T0 + 1000000000, End = T0 + 91000000000\<rparr>,
                \<lparr>Start = T0 + 100000000000, End = 0\<rparr>],
        TotalTime = 90000000000\<rparr>,
      \<lparr>Name = ''beta'', Logs = [], TotalTime = 0\<rparr>]\<rparr>"
  by (simp add: sampleRun_def emptyTracker_def create_def start_def stop_def Let_def
      time_IsZero_def time_Sub_def minDuration_def maxDuration_def T0_def)

theorem one_open_entry_last_witness:
  "wellFormed (runAll sampleRun emptyTracker)
   \<and> wellFormed (snd (stop ''alpha'' (T0 + 130000000000) (runAll sampleRun emptyTracker)))
   \<and> wellFormed (snd (start ''beta'' (T0 + 130000000000) (runAll sampleRun emptyTracker)))
   \<and> length (filter (\<lambda>e. time_IsZero (End e))
         (Logs (hd (Projects (runAll sampleRun emptyTracker))))) \<le> 1"
proof -
  note w = one_open_entry_last [of sampleRun "runAll sampleRun emptyTracker" "''alpha''" "''y''"
      "T0 + 130000000000"]
  note w' = one_open_entry_last [of sampleRun "runAll sampleRun emptyTracker" "''beta''" "''y''"
      "T0 + 130000000000"]
  from w have h: "wellFormed (runAll sampleRun emptyTracker)" by blast
  have m: "hd (Projects (runAll sampleRun emptyTracker)) \<in> set (Projects (runAll sampleRun emptyTracker))"
    by (simp add: sampleRun_result)
  from w h have "wellFormed (snd (stop ''alpha'' (T0 + 130000000000) (runAll sampleRun emptyTracker)))"
    by blast
  moreover from w' h
  have "wellFormed (snd (start ''beta'' (T0 + 130000000000) (runAll sampleRun emptyTracker)))"
    by blast
  moreover from w h m have "length (filter (\<lambda>e. time_IsZero (End e))
         (Logs (hd (Projects (runAll sampleRun emptyTracker))))) \<le> 1"
    by blast
  ultimately show ?thesis using h by blast
qed

section \<open>The total is the sum over the closed entries\<close>

lemma closedSum_append_open: "closedSum (logs @ [\<lparr>Start = s, End = 0\<rparr>]) = closedSum logs"
  by (simp add: closedSum_def time_IsZero_def)

lemma closedSum_close_last:
  assumes "logs \<noteq> []" "time_IsZero (End (last logs))" "now \<noteq> 0"
  shows "closedSum (butlast logs @ [(last logs)\<lparr>End := now\<rparr>])
     = closedSum logs + time_Sub now (Start (last logs))"
proof -
  from assms(1) have "logs = butlast logs @ [last logs]" by simp
  then have "closedSum logs = closedSum (butlast logs @ [last logs])" by simp
  also have "\<dots> = closedSum (butlast logs)"
    using assms(2) by (simp add: closedSum_def)
  finally have "closedSum logs = closedSum (butlast logs)" .
  moreover have "closedSum (butlast logs @ [(last logs)\<lparr>End := now\<rparr>])
      = closedSum (butlast logs) + time_Sub now (Start (last logs))"
    using assms(3) by (simp add: closedSum_def time_IsZero_def)
  ultimately show ?thesis by simp
qed

lemma totalsAgree_create: "totalsAgree tracker \<Longrightarrow> totalsAgree (snd (create name tracker))"
  by (simp add: create_def totalsAgree_def closedSum_def)

lemma totalsAgree_delete: "totalsAgree tracker \<Longrightarrow> totalsAgree (snd (delete name r tracker))"
  by (auto simp: delete_def totalsAgree_def list_all_take list_all_drop split: option.splits)

lemma totalsAgree_start:
  assumes "totalsAgree tracker"
  shows "totalsAgree (snd (start name now tracker))"
proof (cases "firstIndex name (Projects tracker)")
  case None
  with assms show ?thesis by (simp add: start_None)
next
  case (Some i)
  then have i: "i < length (Projects tracker)" by (simp add: firstIndex_Some)
  with assms have "TotalTime (Projects tracker ! i) = closedSum (Logs (Projects tracker ! i))"
    by (simp add: totalsAgree_def list_all_length)
  with assms Some show ?thesis
    by (simp add: start_Some totalsAgree_def list_all_update closedSum_append_open)
qed

lemma totalsAgree_stop:
  assumes "totalsAgree tracker" "now \<noteq> 0"
  shows "totalsAgree (snd (stop name now tracker))"
proof (cases "firstIndex name (Projects tracker)")
  case None
  with assms show ?thesis by (simp add: stop_None)
next
  case (Some i)
  then have i: "i < length (Projects tracker)" by (simp add: firstIndex_Some)
  with assms have eq: "TotalTime (Projects tracker ! i) = closedSum (Logs (Projects tracker ! i))"
    by (simp add: totalsAgree_def list_all_length)
  show ?thesis
  proof (cases "isActive (Projects tracker ! i)")
    case False
    with assms Some show ?thesis by (simp add: stop_Some)
  next
    case True
    then have "closedSum (butlast (Logs (Projects tracker ! i))
          @ [(last (Logs (Projects tracker ! i)))\<lparr>End := now\<rparr>])
        = closedSum (Logs (Projects tracker ! i))
          + time_Sub now (Start (last (Logs (Projects tracker ! i))))"
      using assms(2) by (intro closedSum_close_last) (simp_all add: isActive_def)
    with assms Some True eq show ?thesis
      by (simp add: stop_Some totalsAgree_def list_all_update)
  qed
qed

lemma totalsAgree_runAll:
  "totalsAgree tracker \<Longrightarrow> \<forall>(now, c)\<in>set cs. now \<noteq> 0 \<Longrightarrow> totalsAgree (runAll cs tracker)"
proof (induction cs arbitrary: tracker)
  case Nil
  then show ?case by simp
next
  case (Cons a cs)
  obtain now c where a: "a = (now, c)" by (cases a)
  with Cons.prems have "now \<noteq> 0" by simp
  with Cons.prems(1) have "totalsAgree (snd (exec now c tracker))"
    by (cases c) (simp_all add: totalsAgree_create totalsAgree_delete totalsAgree_start totalsAgree_stop)
  with Cons.IH Cons.prems(2) a show ?case by simp
qed

text \<open>
  C2, amended. The equality of \<open>TotalTime\<close> with the sum of \<open>End.Sub(Start)\<close> over the
  closed entries, in \<^verbatim>\<open>Duration\<close> arithmetic, is preserved by \<open>create\<close>, \<open>delete\<close> and
  \<open>start\<close>, and by \<open>stop\<close> at any instant other than the zero instant; it holds of every
  tracker reached from the empty one by invocations at such instants. \<open>create\<close> makes a
  project with both sides zero, a successful \<open>start\<close> changes neither side, and a
  successful \<open>stop\<close> at a non-zero instant adds the same duration to both.
\<close>

theorem total_is_closed_sum:
  "((\<forall>(now, c)\<in>set cs. now \<noteq> 0) \<longrightarrow> totalsAgree (runAll cs emptyTracker))
   \<and> (totalsAgree tracker \<longrightarrow>
        totalsAgree (snd (create name tracker)) \<and> totalsAgree (snd (delete name r tracker))
      \<and> totalsAgree (snd (start name now tracker))
      \<and> (now \<noteq> 0 \<longrightarrow> totalsAgree (snd (stop name now tracker))))
   \<and> (fst (create name tracker) = Created \<longrightarrow>
        TotalTime (last (Projects (snd (create name tracker)))) = 0
      \<and> closedSum (Logs (last (Projects (snd (create name tracker))))) = 0)
   \<and> (firstIndex name (Projects tracker) = Some i \<and> fst (start name now tracker) = Started \<longrightarrow>
        TotalTime (Projects (snd (start name now tracker)) ! i) = TotalTime (Projects tracker ! i)
      \<and> closedSum (Logs (Projects (snd (start name now tracker)) ! i))
          = closedSum (Logs (Projects tracker ! i)))
   \<and> (firstIndex name (Projects tracker) = Some i \<and> fst (stop name now tracker) = Stopped d t
        \<and> now \<noteq> 0 \<longrightarrow>
        TotalTime (Projects (snd (stop name now tracker)) ! i) = TotalTime (Projects tracker ! i) + d
      \<and> closedSum (Logs (Projects (snd (stop name now tracker)) ! i))
          = closedSum (Logs (Projects tracker ! i)) + d)"
proof (intro conjI impI)
  assume "\<forall>(now, c)\<in>set cs. now \<noteq> 0"
  moreover have "totalsAgree emptyTracker" by (simp add: totalsAgree_def emptyTracker_def)
  ultimately show "totalsAgree (runAll cs emptyTracker)" by (simp add: totalsAgree_runAll)
next
  assume "fst (create name tracker) = Created"
  then show "TotalTime (last (Projects (snd (create name tracker)))) = 0"
    "closedSum (Logs (last (Projects (snd (create name tracker))))) = 0"
    by (simp_all add: create_def closedSum_def split: if_splits)
next
  assume a: "firstIndex name (Projects tracker) = Some i \<and> fst (start name now tracker) = Started"
  then have i: "i < length (Projects tracker)"
    using firstIndex_Some [of name "Projects tracker" i] by blast
  from a have "\<not> isActive (Projects tracker ! i)" by (auto simp: start_Some split: if_splits)
  with a i show "TotalTime (Projects (snd (start name now tracker)) ! i) = TotalTime (Projects tracker ! i)"
    "closedSum (Logs (Projects (snd (start name now tracker)) ! i))
          = closedSum (Logs (Projects tracker ! i))"
    by (simp_all add: start_Some closedSum_append_open)
next
  assume a: "firstIndex name (Projects tracker) = Some i \<and> fst (stop name now tracker) = Stopped d t
        \<and> now \<noteq> 0"
  then have i: "i < length (Projects tracker)"
    using firstIndex_Some [of name "Projects tracker" i] by blast
  from a have act: "isActive (Projects tracker ! i)" by (auto simp: stop_Some split: if_splits)
  with a have d: "d = time_Sub now (Start (last (Logs (Projects tracker ! i))))"
    by (auto simp: stop_Some)
  from act a have "closedSum (butlast (Logs (Projects tracker ! i))
          @ [(last (Logs (Projects tracker ! i)))\<lparr>End := now\<rparr>])
        = closedSum (Logs (Projects tracker ! i)) + d"
    unfolding d by (intro closedSum_close_last) (simp_all add: isActive_def)
  with a i act d show "TotalTime (Projects (snd (stop name now tracker)) ! i) = TotalTime (Projects tracker ! i) + d"
    "closedSum (Logs (Projects (snd (stop name now tracker)) ! i))
          = closedSum (Logs (Projects tracker ! i)) + d"
    by (simp_all add: stop_Some)
qed (simp_all add: totalsAgree_create totalsAgree_delete totalsAgree_start totalsAgree_stop)

theorem total_is_closed_sum_witness:
  "totalsAgree (runAll sampleRun emptyTracker)
   \<and> totalsAgree (snd (stop ''alpha'' (T0 + 130000000000) (runAll sampleRun emptyTracker)))
   \<and> TotalTime (Projects (snd (stop ''alpha'' (T0 + 130000000000) (runAll sampleRun emptyTracker))) ! 0)
        = 120000000000
   \<and> closedSum (Logs (Projects (snd (stop ''alpha'' (T0 + 130000000000)
        (runAll sampleRun emptyTracker))) ! 0)) = 120000000000
   \<and> TotalTime (Projects (snd (start ''beta'' (T0 + 130000000000) (runAll sampleRun emptyTracker))) ! 1)
        = 0
   \<and> TotalTime (last (Projects (snd (create ''gamma'' (runAll sampleRun emptyTracker))))) = 0"
proof -
  let ?tr = "runAll sampleRun emptyTracker" and ?now = "T0 + 130000000000"
  note w = total_is_closed_sum [of sampleRun ?tr "''alpha''" "''y''" ?now 0 30000000000 120000000000]
  note w' = total_is_closed_sum [of sampleRun ?tr "''beta''" "''y''" ?now 1 30000000000 120000000000]
  note w'' = total_is_closed_sum [of sampleRun ?tr "''gamma''" "''y''" ?now 1 30000000000 120000000000]
  have nz: "\<forall>(now, c)\<in>set sampleRun. now \<noteq> 0" by (simp add: sampleRun_def T0_def)
  have n: "?now \<noteq> 0" by (simp add: T0_def)
  have fa: "firstIndex ''alpha'' (Projects ?tr) = Some 0" by (simp add: sampleRun_result)
  have fb: "firstIndex ''beta'' (Projects ?tr) = Some 1" by (simp add: sampleRun_result)
  have sa: "fst (stop ''alpha'' ?now ?tr) = Stopped 30000000000 120000000000"
    by (simp add: stop_Some [OF fa])
      (simp add: sampleRun_result isActive_def time_IsZero_def time_Sub_def minDuration_def
        maxDuration_def)
  have sb: "fst (start ''beta'' ?now ?tr) = Started"
    by (simp add: start_Some [OF fb]) (simp add: sampleRun_result isActive_def)
  have cg: "fst (create ''gamma'' ?tr) = Created"
    by (simp add: create_def sampleRun_result)
  have old: "TotalTime (Projects ?tr ! 0) = 90000000000" "TotalTime (Projects ?tr ! 1) = 0"
    "closedSum (Logs (Projects ?tr ! 0)) = 90000000000"
    by (simp_all add: sampleRun_result closedSum_def time_IsZero_def time_Sub_def minDuration_def
        maxDuration_def T0_def)
  from w nz have h: "totalsAgree ?tr" by blast
  from w h n have "totalsAgree (snd (stop ''alpha'' ?now ?tr))" by blast
  moreover from w fa sa n
  have "TotalTime (Projects (snd (stop ''alpha'' ?now ?tr)) ! 0)
        = TotalTime (Projects ?tr ! 0) + 30000000000
      \<and> closedSum (Logs (Projects (snd (stop ''alpha'' ?now ?tr)) ! 0))
        = closedSum (Logs (Projects ?tr ! 0)) + 30000000000"
    by blast
  moreover from w' fb sb
  have "TotalTime (Projects (snd (start ''beta'' ?now ?tr)) ! 1) = TotalTime (Projects ?tr ! 1)"
    by blast
  moreover from w'' cg
  have "TotalTime (last (Projects (snd (create ''gamma'' ?tr)))) = 0"
    by blast
  ultimately show ?thesis using h old by simp
qed

text \<open>
  C2 as stated fails for \<open>stop\<close> at the zero instant: the entry stays open, so the sum
  over the closed entries does not change, while the (saturated) duration is added to
  \<open>TotalTime\<close>.
\<close>

theorem stop_at_zero_instant_breaks_total:
  "totalsAgree alphaOpen \<and> \<not> totalsAgree (snd (stop ''alpha'' 0 alphaOpen))"
  by (simp add: alphaOpen_def totalsAgree_def closedSum_def stop_def Let_def time_IsZero_def
      time_Sub_def minDuration_def maxDuration_def T0_def)

section \<open>The effective total\<close>

lemma sint_timeOf_exact:
  assumes "isActive p"
    and "minDuration \<le> now - Start (last (Logs p))" "now - Start (last (Logs p)) \<le> maxDuration"
    and "minDuration \<le> sint (TotalTime p) + (now - Start (last (Logs p)))"
    and "sint (TotalTime p) + (now - Start (last (Logs p))) \<le> maxDuration"
  shows "sint (timeOf now p) = sint (TotalTime p) + (now - Start (last (Logs p)))"
proof -
  have s: "sint (time_Sub now (Start (last (Logs p)))) = now - Start (last (Logs p))"
    using assms(2,3) by (simp add: sint_time_Sub)
  have "sint (TotalTime p + time_Sub now (Start (last (Logs p))))
      = sint (TotalTime p) + sint (time_Sub now (Start (last (Logs p))))"
    using assms(4,5) unfolding s [symmetric] by (rule sint_add_64)
  with assms(1) s show ?thesis by (simp add: timeOf_isActive)
qed

text \<open>
  C7, amended. The time \<open>report\<close> shows for a project is its \<open>TotalTime\<close> when the project
  is Idle, as it is after a \<open>stop\<close> at a non-zero instant, and
  \<open>TotalTime + now.Sub(start)\<close> of the open entry when it is Active, at the instant \<open>now\<close>
  that \<^verbatim>\<open>time.Since\<close> reads. For an Active project and instants \<open>now1 < now2\<close> the later
  value is strictly greater provided the elapsed time and its sum with \<open>TotalTime\<close> fit an
  \<^verbatim>\<open>int64\<close> at both instants; both values are then the exact sums.
\<close>

theorem effective_total:
  "(\<not> isActive p \<longrightarrow> timeOf now p = TotalTime p)
   \<and> (isActive p \<longrightarrow> timeOf now p = TotalTime p + time_Sub now (Start (last (Logs p))))
   \<and> (firstIndex name (Projects tracker) = Some i \<and> isActive (Projects tracker ! i) \<and> t \<noteq> 0 \<longrightarrow>
        timeOf now (Projects (snd (stop name t tracker)) ! i)
          = TotalTime (Projects (snd (stop name t tracker)) ! i))
   \<and> (report clk k tracker = Some (rows, totalAll) \<longrightarrow>
        (\<forall>j<length (Projects tracker). RowTime (rows ! j) =
           timeOf (clk (k + length (filter isActive (Projects tracker))
                     + length (filter isActive (take j (Projects tracker)))))
             (Projects tracker ! j)))
   \<and> (isActive p \<and> now1 < now2
        \<and> minDuration \<le> now1 - Start (last (Logs p))
        \<and> now2 - Start (last (Logs p)) \<le> maxDuration
        \<and> minDuration \<le> sint (TotalTime p) + (now1 - Start (last (Logs p)))
        \<and> sint (TotalTime p) + (now2 - Start (last (Logs p))) \<le> maxDuration \<longrightarrow>
        sint (timeOf now1 p) = sint (TotalTime p) + (now1 - Start (last (Logs p)))
      \<and> sint (timeOf now2 p) = sint (TotalTime p) + (now2 - Start (last (Logs p)))
      \<and> sint (timeOf now1 p) < sint (timeOf now2 p))"
proof (intro conjI impI)
  assume a: "firstIndex name (Projects tracker) = Some i \<and> isActive (Projects tracker ! i) \<and> t \<noteq> 0"
  then have i: "i < length (Projects tracker)"
    using firstIndex_Some [of name "Projects tracker" i] by blast
  with a have "\<not> isActive (Projects (snd (stop name t tracker)) ! i)"
    by (simp add: stop_Some isActive_def time_IsZero_def)
  then show "timeOf now (Projects (snd (stop name t tracker)) ! i)
          = TotalTime (Projects (snd (stop name t tracker)) ! i)"
    by (simp add: timeOf_isActive)
next
  assume r: "report clk k tracker = Some (rows, totalAll)"
  then have ne: "Projects tracker \<noteq> []" by (auto simp: report_def split: if_splits)
  from r report_Some [OF ne, of clk k]
  have "rows = reportRows clk (k + length (filter isActive (Projects tracker))) totalAll
          (Projects tracker)"
    by auto
  then show "\<forall>j<length (Projects tracker). RowTime (rows ! j) =
           timeOf (clk (k + length (filter isActive (Projects tracker))
                     + length (filter isActive (take j (Projects tracker)))))
             (Projects tracker ! j)"
    by (simp add: reportRows_nth)
next
  assume a: "isActive p \<and> now1 < now2
        \<and> minDuration \<le> now1 - Start (last (Logs p))
        \<and> now2 - Start (last (Logs p)) \<le> maxDuration
        \<and> minDuration \<le> sint (TotalTime p) + (now1 - Start (last (Logs p)))
        \<and> sint (TotalTime p) + (now2 - Start (last (Logs p))) \<le> maxDuration"
  then have e1: "sint (timeOf now1 p) = sint (TotalTime p) + (now1 - Start (last (Logs p)))"
    by (intro sint_timeOf_exact) simp_all
  from a have e2: "sint (timeOf now2 p) = sint (TotalTime p) + (now2 - Start (last (Logs p)))"
    by (intro sint_timeOf_exact) simp_all
  from e1 show "sint (timeOf now1 p) = sint (TotalTime p) + (now1 - Start (last (Logs p)))" .
  from e2 show "sint (timeOf now2 p) = sint (TotalTime p) + (now2 - Start (last (Logs p)))" .
  from e1 e2 a show "sint (timeOf now1 p) < sint (timeOf now2 p)" by simp
qed (simp_all add: timeOf_isActive)

theorem effective_total_witness:
  "timeOf (T0 + 60000000000) (Projects alphaClosed ! 0) = 90000000000
   \<and> timeOf (T0 + 60000000000) (Projects alphaOpen ! 0) = 60000000000
   \<and> timeOf (T0 + 95000000000) (Projects (snd (stop ''alpha'' (T0 + 90000000000) alphaOpen)) ! 0)
       = TotalTime (Projects (snd (stop ''alpha'' (T0 + 90000000000) alphaOpen)) ! 0)
   \<and> RowTime (fst (the (report tick 1 bothOpen)) ! 1) = 159999999999
   \<and> sint (timeOf (T0 + 60000000000) (Projects alphaOpen ! 0))
       < sint (timeOf (T0 + 61000000000) (Projects alphaOpen ! 0))"
proof -
  let ?now1 = "T0 + 60000000000" and ?now2 = "T0 + 61000000000"
  have r: "report tick 1 bothOpen = Some (fst (the (report tick 1 bothOpen)), snd (the (report tick 1 bothOpen)))"
    by (simp add: report_def bothOpen_def split: prod.splits)
  note w1 = effective_total [of "Projects alphaClosed ! 0" ?now1 "''alpha''" alphaOpen 0
      "T0 + 90000000000" tick 1 "fst (the (report tick 1 bothOpen))"
      "snd (the (report tick 1 bothOpen))" ?now1 ?now2]
  note w2 = effective_total [of "Projects alphaOpen ! 0" ?now1 "''alpha''" alphaOpen 0
      "T0 + 90000000000" tick 1 "fst (the (report tick 1 bothOpen))"
      "snd (the (report tick 1 bothOpen))" ?now1 ?now2]
  note w3 = effective_total [of "Projects alphaOpen ! 0" ?now1 "''alpha''" bothOpen 0
      "T0 + 90000000000" tick 1 "fst (the (report tick 1 bothOpen))"
      "snd (the (report tick 1 bothOpen))" ?now1 ?now2]
  have idle: "\<not> isActive (Projects alphaClosed ! 0)"
    by (simp add: alphaClosed_def isActive_def time_IsZero_def T0_def)
  have act: "isActive (Projects alphaOpen ! 0)"
    by (simp add: alphaOpen_def isActive_def time_IsZero_def)
  have f: "firstIndex ''alpha'' (Projects alphaOpen) = Some 0" by (simp add: alphaOpen_def)
  have n: "T0 + 90000000000 \<noteq> 0" by (simp add: T0_def)
  have vals: "TotalTime (Projects alphaClosed ! 0) = 90000000000"
    "TotalTime (Projects alphaOpen ! 0) = 0"
    "Start (last (Logs (Projects alphaOpen ! 0))) = T0"
    by (simp_all add: alphaClosed_def alphaOpen_def)
  have d: "time_Sub ?now1 T0 = 60000000000"
    by (simp add: time_Sub_def minDuration_def maxDuration_def)
  have rng: "?now1 < ?now2
        \<and> minDuration \<le> ?now1 - Start (last (Logs (Projects alphaOpen ! 0)))
        \<and> ?now2 - Start (last (Logs (Projects alphaOpen ! 0))) \<le> maxDuration
        \<and> minDuration \<le> sint (TotalTime (Projects alphaOpen ! 0))
              + (?now1 - Start (last (Logs (Projects alphaOpen ! 0))))
        \<and> sint (TotalTime (Projects alphaOpen ! 0))
              + (?now2 - Start (last (Logs (Projects alphaOpen ! 0)))) \<le> maxDuration"
    by (simp add: vals minDuration_def maxDuration_def)
  have ps: "length (Projects bothOpen) = 2"
    "filter isActive (Projects bothOpen) = Projects bothOpen"
    "filter isActive (take 1 (Projects bothOpen)) = take 1 (Projects bothOpen)"
    "length (take 1 (Projects bothOpen)) = 1"
    by (simp_all add: bothOpen_def isActive_def time_IsZero_def)
  have row: "timeOf (tick (Suc (Suc (Suc (Suc 0))))) (Projects bothOpen ! 1) = 159999999999"
    by (simp add: timeOf_def bothOpen_def tick_def time_IsZero_def time_Sub_def minDuration_def
        maxDuration_def)
  from w1 idle have "timeOf ?now1 (Projects alphaClosed ! 0) = 90000000000"
    using vals by simp
  moreover from w2 act have "timeOf ?now1 (Projects alphaOpen ! 0) = 60000000000"
    using vals d by simp
  moreover from w2 f act n
  have "timeOf (T0 + 95000000000) (Projects (snd (stop ''alpha'' (T0 + 90000000000) alphaOpen)) ! 0)
       = TotalTime (Projects (snd (stop ''alpha'' (T0 + 90000000000) alphaOpen)) ! 0)"
    using effective_total [of "Projects alphaOpen ! 0" "T0 + 95000000000" "''alpha''" alphaOpen 0
      "T0 + 90000000000" tick 1 "fst (the (report tick 1 bothOpen))"
      "snd (the (report tick 1 bothOpen))" ?now1 ?now2]
    by blast
  moreover from w3 r have "RowTime (fst (the (report tick 1 bothOpen)) ! 1) = 159999999999"
    using ps row by simp
  moreover from w2 act rng
  have "sint (timeOf ?now1 (Projects alphaOpen ! 0)) < sint (timeOf ?now2 (Projects alphaOpen ! 0))"
    by blast
  ultimately show ?thesis by blast
qed

text \<open>
  C7 as stated fails once the open session is older than the longest \<^verbatim>\<open>Duration\<close> (about
  292 years): \<^verbatim>\<open>Sub\<close> returns the maximum duration at both instants, and the time shown
  does not grow.
\<close>

theorem effective_total_saturates:
  "isActive (Projects alphaOpen ! 0)
   \<and> T0 + 9300000000000000000 < T0 + 9300000001000000000
   \<and> timeOf (T0 + 9300000000000000000) (Projects alphaOpen ! 0) = word_of_int maxDuration
   \<and> timeOf (T0 + 9300000001000000000) (Projects alphaOpen ! 0) = word_of_int maxDuration
   \<and> \<not> sint (timeOf (T0 + 9300000000000000000) (Projects alphaOpen ! 0))
         < sint (timeOf (T0 + 9300000001000000000) (Projects alphaOpen ! 0))"
  by (simp add: alphaOpen_def isActive_def timeOf_def time_IsZero_def time_Sub_def
      minDuration_def maxDuration_def)

section \<open>The percentages of the report\<close>

lemma filter_before_active:
  assumes "j < length ps" "P (ps ! j)"
  shows "length (filter P (take j ps)) < length (filter P ps)"
proof -
  from assms(1) have "ps = take j ps @ ps ! j # drop (Suc j) ps"
    by (rule id_take_nth_drop)
  then have "filter P ps = filter P (take j ps) @ filter P (ps ! j # drop (Suc j) ps)"
    by (metis filter_append)
  with assms(2) show ?thesis by simp
qed

lemma timeOf_steady:
  assumes "\<forall>n. k \<le> n \<and> n < k + m \<longrightarrow> clk n = now"
    and "isActive p \<longrightarrow> k \<le> n \<and> n < k + m"
  shows "timeOf (clk n) p = timeOf now p"
proof (cases "isActive p")
  case True
  with assms show ?thesis by simp
next
  case False
  then show ?thesis by (simp add: timeOf_isActive)
qed

lemma reportRows_steady:
  assumes "\<forall>n. k \<le> n \<and> n < k + length (filter isActive ps) \<longrightarrow> clk n = now"
  shows "reportRows clk k totalAll ps =
     map (\<lambda>p. \<lparr>RowName = Name p, Sessions = length (Logs p), RowTime = timeOf now p,
                Percent = percentOf (timeOf now p) totalAll\<rparr>) ps"
proof (rule nth_equalityI)
  show "length (reportRows clk k totalAll ps) =
      length (map (\<lambda>p. \<lparr>RowName = Name p, Sessions = length (Logs p), RowTime = timeOf now p,
                Percent = percentOf (timeOf now p) totalAll\<rparr>) ps)"
    by (simp add: length_reportRows)
next
  fix j assume "j < length (reportRows clk k totalAll ps)"
  then have j: "j < length ps" by (simp add: length_reportRows)
  have "timeOf (clk (k + length (filter isActive (take j ps)))) (ps ! j) = timeOf now (ps ! j)"
    using assms
  proof (rule timeOf_steady)
    show "isActive (ps ! j) \<longrightarrow> k \<le> k + length (filter isActive (take j ps))
        \<and> k + length (filter isActive (take j ps)) < k + length (filter isActive ps)"
      using filter_before_active [OF j, of isActive] by simp
  qed
  with j show "reportRows clk k totalAll ps ! j =
      map (\<lambda>p. \<lparr>RowName = Name p, Sessions = length (Logs p), RowTime = timeOf now p,
                Percent = percentOf (timeOf now p) totalAll\<rparr>) ps ! j"
    by (simp add: reportRows_nth)
qed

lemma sint_sum_list:
  fixes ws :: "Duration list"
  assumes "minDuration \<le> sum_list (map sint ws)" "sum_list (map sint ws) \<le> maxDuration"
  shows "sint (sum_list ws) = sum_list (map sint ws)"
proof -
  have "word_of_int (sum_list (map sint ws)) = sum_list ws"
    by (induction ws) simp_all
  then have "sint (sum_list ws) = sint (word_of_int (sum_list (map sint ws)) :: Duration)"
    by simp
  also have "\<dots> = sum_list (map sint ws)"
    using assms by (rule sint_of_int_64)
  finally show ?thesis .
qed

lemma percentOf_positive:
  "0 < sint totalAll \<Longrightarrow>
     percentOf t totalAll = real_of_int (sint t) * (100 / real_of_int (sint totalAll))"
  by (simp add: percentOf_def Minutes_def)

lemma sum_percent:
  assumes "0 < sint totalAll" "sum_list (map (\<lambda>p. sint (f p)) ps) = sint totalAll"
  shows "sum_list (map (\<lambda>p. percentOf (f p) totalAll) ps) = 100"
proof -
  define n where "n = sint totalAll"
  with assms(1) have n: "0 < n" by simp
  have "sum_list (map (\<lambda>p. percentOf (f p) totalAll) ps)
      = sum_list (map (\<lambda>p. real_of_int (sint (f p)) * (100 / real_of_int n)) ps)"
    unfolding n_def using assms(1) by (simp only: percentOf_positive)
  also have "\<dots> = sum_list (map (\<lambda>p. real_of_int (sint (f p))) ps) * (100 / real_of_int n)"
    by (rule sum_list_mult_const)
  also have "sum_list (map (\<lambda>p. real_of_int (sint (f p))) ps)
      = real_of_int (sum_list (map (\<lambda>p. sint (f p)) ps))"
    by (induction ps) simp_all
  also have "sum_list (map (\<lambda>p. sint (f p)) ps) = n"
    using assms(2) by (simp only: n_def)
  finally show ?thesis using n by simp
qed

lemma reportRows_percent:
  "r \<in> set (reportRows clk k totalAll ps) \<Longrightarrow> Percent r = percentOf (RowTime r) totalAll"
  by (induction ps arbitrary: k) (auto simp: Let_def)

text \<open>
  C8, amended. In the report every row's percentage is the row's time divided by the grand
  total, times 100, when the grand total is strictly positive, and 0 otherwise (also for a
  negative grand total). When every clock reading taken during the report is the same
  instant, each row's time is the project's effective total at that instant and the grand
  total is their \<^verbatim>\<open>int64\<close> sum; when moreover that sum does not overflow and is strictly
  positive, the percentages sum to 100. The \<^verbatim>\<open>float64\<close> quotient is taken as the exact
  real quotient.
\<close>

theorem report_percentages:
  "report clk k tracker = Some (rows, totalAll) \<longrightarrow>
     length rows = length (Projects tracker)
   \<and> (\<forall>r\<in>set rows. Percent r =
         (if 0 < sint totalAll then Minutes (RowTime r) / Minutes totalAll * 100 else 0))
   \<and> (sint totalAll \<le> 0 \<longrightarrow> (\<forall>r\<in>set rows. Percent r = 0))
   \<and> ((\<forall>n. k \<le> n \<and> n < k + 2 * length (filter isActive (Projects tracker)) \<longrightarrow> clk n = now) \<longrightarrow>
         map RowTime rows = map (timeOf now) (Projects tracker)
       \<and> totalAll = sum_list (map (timeOf now) (Projects tracker))
       \<and> (0 < sint totalAll
           \<and> minDuration \<le> (\<Sum>p\<leftarrow>Projects tracker. sint (timeOf now p))
           \<and> (\<Sum>p\<leftarrow>Projects tracker. sint (timeOf now p)) \<le> maxDuration \<longrightarrow>
             sint totalAll = (\<Sum>p\<leftarrow>Projects tracker. sint (timeOf now p))
           \<and> sum_list (map Percent rows) = 100))"
proof (intro impI)
  let ?ps = "Projects tracker"
  let ?m = "length (filter isActive ?ps)"
  assume r: "report clk k tracker = Some (rows, totalAll)"
  then have ne: "?ps \<noteq> []" by (auto simp: report_def split: if_splits)
  from r report_Some [OF ne, of clk k]
  have rows: "rows = reportRows clk (k + ?m) totalAll ?ps"
    and tot: "totalAll = sum_list (map RowTime (reportRows clk k 0 ?ps))"
    by auto
  have len: "length rows = length ?ps" by (simp add: rows length_reportRows)
  have pc: "\<forall>r\<in>set rows. Percent r =
         (if 0 < sint totalAll then Minutes (RowTime r) / Minutes totalAll * 100 else 0)"
    using reportRows_percent [of _ clk "k + ?m" totalAll ?ps]
    by (simp add: rows percentOf_def)
  then have zero: "\<forall>r\<in>set rows. Percent r = 0" if "sint totalAll \<le> 0"
    using that by simp
  have steady: "map RowTime rows = map (timeOf now) ?ps
       \<and> totalAll = sum_list (map (timeOf now) ?ps)
       \<and> (0 < sint totalAll
           \<and> minDuration \<le> (\<Sum>p\<leftarrow>?ps. sint (timeOf now p))
           \<and> (\<Sum>p\<leftarrow>?ps. sint (timeOf now p)) \<le> maxDuration \<longrightarrow>
             sint totalAll = (\<Sum>p\<leftarrow>?ps. sint (timeOf now p))
           \<and> sum_list (map Percent rows) = 100)"
    if c: "\<forall>n. k \<le> n \<and> n < k + 2 * ?m \<longrightarrow> clk n = now"
  proof -
    from c have c1: "\<forall>n. k \<le> n \<and> n < k + ?m \<longrightarrow> clk n = now" by simp
    from c have c2: "\<forall>n. k + ?m \<le> n \<and> n < k + ?m + ?m \<longrightarrow> clk n = now" by simp
    have rows': "rows = map (\<lambda>p. \<lparr>RowName = Name p, Sessions = length (Logs p),
        RowTime = timeOf now p, Percent = percentOf (timeOf now p) totalAll\<rparr>) ?ps"
      unfolding rows using c2 by (rule reportRows_steady)
    have tot': "totalAll = sum_list (map (timeOf now) ?ps)"
      unfolding tot reportRows_steady [OF c1] by (simp add: o_def)
    have times: "map RowTime rows = map (timeOf now) ?ps"
      unfolding rows' by (simp add: o_def)
    have hundred: "sint totalAll = (\<Sum>p\<leftarrow>?ps. sint (timeOf now p))
           \<and> sum_list (map Percent rows) = 100"
      if pos: "0 < sint totalAll"
        and lo: "minDuration \<le> (\<Sum>p\<leftarrow>?ps. sint (timeOf now p))"
        and hi: "(\<Sum>p\<leftarrow>?ps. sint (timeOf now p)) \<le> maxDuration"
    proof -
      have "sint (sum_list (map (timeOf now) ?ps)) = sum_list (map sint (map (timeOf now) ?ps))"
        using lo hi by (intro sint_sum_list) (simp_all add: o_def)
      then have eq: "(\<Sum>p\<leftarrow>?ps. sint (timeOf now p)) = sint totalAll"
        using tot' by (simp add: o_def)
      have "sum_list (map Percent rows) = (\<Sum>p\<leftarrow>?ps. percentOf (timeOf now p) totalAll)"
        unfolding rows' by (simp add: o_def)
      also have "\<dots> = 100" using pos eq by (rule sum_percent)
      finally show ?thesis using eq by simp
    qed
    from times tot' hundred show ?thesis by blast
  qed
  from len pc zero steady
  show "length rows = length ?ps
   \<and> (\<forall>r\<in>set rows. Percent r =
         (if 0 < sint totalAll then Minutes (RowTime r) / Minutes totalAll * 100 else 0))
   \<and> (sint totalAll \<le> 0 \<longrightarrow> (\<forall>r\<in>set rows. Percent r = 0))
   \<and> ((\<forall>n. k \<le> n \<and> n < k + 2 * ?m \<longrightarrow> clk n = now) \<longrightarrow>
         map RowTime rows = map (timeOf now) ?ps
       \<and> totalAll = sum_list (map (timeOf now) ?ps)
       \<and> (0 < sint totalAll
           \<and> minDuration \<le> (\<Sum>p\<leftarrow>?ps. sint (timeOf now p))
           \<and> (\<Sum>p\<leftarrow>?ps. sint (timeOf now p)) \<le> maxDuration \<longrightarrow>
             sint totalAll = (\<Sum>p\<leftarrow>?ps. sint (timeOf now p))
           \<and> sum_list (map Percent rows) = 100))"
    by blast
qed

lemma report_alphaBeta:
  "report steady 0 alphaBeta =
     Some ([\<lparr>RowName = ''alpha'', Sessions = 1, RowTime = 60000000000, Percent = 50\<rparr>,
            \<lparr>RowName = ''beta'', Sessions = 0, RowTime = 60000000000, Percent = 50\<rparr>],
           120000000000)"
  by (simp add: report_def reads_def timeOf_def Let_def alphaBeta_def steady_def time_IsZero_def
      time_Sub_def minDuration_def maxDuration_def percentOf_def Minutes_def)

lemma report_alphaNegative:
  "report tick 0 alphaNegative =
     Some ([\<lparr>RowName = ''alpha'', Sessions = 1, RowTime = - 60000000000, Percent = 0\<rparr>],
           - 60000000000)"
  by (simp add: report_def reads_def timeOf_def Let_def alphaNegative_def time_IsZero_def
      percentOf_def T0_def)

theorem report_percentages_witness:
  "length (fst (the (report steady 0 alphaBeta))) = 2
   \<and> map RowTime (fst (the (report steady 0 alphaBeta))) = [60000000000, 60000000000]
   \<and> snd (the (report steady 0 alphaBeta)) = 120000000000
   \<and> Percent (hd (fst (the (report steady 0 alphaBeta)))) = 50
   \<and> sum_list (map Percent (fst (the (report steady 0 alphaBeta)))) = 100
   \<and> Percent (hd (fst (the (report tick 0 alphaNegative)))) = 0"
proof -
  let ?rows = "fst (the (report steady 0 alphaBeta))"
  let ?tot = "snd (the (report steady 0 alphaBeta))"
  let ?now = "T0 + 60000000000"
  let ?nrows = "fst (the (report tick 0 alphaNegative))"
  let ?ntot = "snd (the (report tick 0 alphaNegative))"
  note w = report_percentages [of steady 0 alphaBeta ?rows ?tot ?now]
  note wn = report_percentages [of tick 0 alphaNegative ?nrows ?ntot 0]
  have r: "report steady 0 alphaBeta = Some (?rows, ?tot)" by (simp add: report_alphaBeta)
  have rn: "report tick 0 alphaNegative = Some (?nrows, ?ntot)" by (simp add: report_alphaNegative)
  have c: "\<forall>n. 0 \<le> n \<and> n < 0 + 2 * length (filter isActive (Projects alphaBeta)) \<longrightarrow> steady n = ?now"
    by (simp add: steady_def)
  have t: "map (timeOf ?now) (Projects alphaBeta) = [60000000000, 60000000000]"
    by (simp add: timeOf_def alphaBeta_def time_IsZero_def time_Sub_def minDuration_def
        maxDuration_def)
  have s: "(\<Sum>p\<leftarrow>Projects alphaBeta. sint (timeOf ?now p)) = 120000000000"
    by (simp add: timeOf_def alphaBeta_def time_IsZero_def time_Sub_def minDuration_def
        maxDuration_def)
  have len: "length (Projects alphaBeta) = 2" by (simp add: alphaBeta_def)
  have pos: "0 < sint ?tot" by (simp add: report_alphaBeta)
  have rng: "minDuration \<le> (\<Sum>p\<leftarrow>Projects alphaBeta. sint (timeOf ?now p))
      \<and> (\<Sum>p\<leftarrow>Projects alphaBeta. sint (timeOf ?now p)) \<le> maxDuration"
    by (simp add: s minDuration_def maxDuration_def)
  have neg: "sint ?ntot \<le> 0" by (simp add: report_alphaNegative)
  have hn: "hd ?nrows \<in> set ?nrows" by (simp add: report_alphaNegative)
  have h: "hd ?rows \<in> set ?rows" by (simp add: report_alphaBeta)
  have m: "Minutes (RowTime (hd ?rows)) / Minutes ?tot * 100 = 50"
    by (simp add: report_alphaBeta Minutes_def)
  from w r have "length ?rows = 2" using len by simp
  moreover from w r c have "map RowTime ?rows = [60000000000, 60000000000]" using t by simp
  moreover from w r c have "?tot = 120000000000" using t by simp
  moreover from w r h pos have "Percent (hd ?rows) = 50" using m by simp
  moreover from w r c pos rng have "sum_list (map Percent ?rows) = 100" by blast
  moreover from wn rn neg hn have "Percent (hd ?nrows) = 0" by blast
  ultimately show ?thesis by blast
qed

text \<open>
  C8 as stated fails for a negative grand total, which a \<open>stop\<close> with the clock set back
  produces: the guard is \<^verbatim>\<open>totalAll > 0\<close>, so the percentage shown is 0, while the claim's
  quotient is 100.
\<close>

theorem report_negative_total:
  "runAll [(T0, CmdCreate ''alpha''), (T0 + 60000000000, CmdStart ''alpha''),
           (T0, CmdStop ''alpha'')] emptyTracker = alphaNegative
   \<and> report tick 0 alphaNegative =
       Some ([\<lparr>RowName = ''alpha'', Sessions = 1, RowTime = - 60000000000, Percent = 0\<rparr>],
             - 60000000000)
   \<and> sint (- 60000000000 :: Duration) \<noteq> 0
   \<and> Minutes (- 60000000000) / Minutes (- 60000000000) * 100 = 100"
  by (simp add: report_alphaNegative Minutes_def)
    (simp add: alphaNegative_def emptyTracker_def create_def start_def stop_def Let_def
      time_IsZero_def time_Sub_def minDuration_def maxDuration_def T0_def)

text \<open>
  The two further conditions of the amended claim are needed as well. \<open>report\<close> reads the
  clock once for the grand total and once more for the row, so on a clock that advances the
  row of the only project is not 100 percent exactly; and a grand total past the largest
  \<^verbatim>\<open>int64\<close> wraps around, here to the total of one project of five.
\<close>

lemma report_clock_advances:
  "report tick 0 alphaOpen =
     Some ([\<lparr>RowName = ''alpha'', Sessions = 1, RowTime = 160000000001,
             Percent = 160000000001 / 160000000000 * 100\<rparr>], 160000000000)"
  by (simp add: report_def reads_def timeOf_def Let_def alphaOpen_def tick_def time_IsZero_def
      time_Sub_def minDuration_def maxDuration_def percentOf_def Minutes_def)

lemma report_total_wraps:
  "map Percent (fst (the (report tick 0
      \<lparr>Projects = map (\<lambda>n. \<lparr>Name = n, Logs = [], TotalTime = 2 ^ 62\<rparr>)
         [''a'', ''b'', ''c'', ''d'', ''e'']\<rparr>)))
     = [100, 100, 100, 100, 100]"
  by (simp add: report_def reads_def timeOf_def Let_def percentOf_def Minutes_def)

section \<open>The zero instant as the open marker\<close>

lemma status_cong:
  "map Name ps' = map Name ps \<Longrightarrow> map Logs ps' = map Logs ps \<Longrightarrow>
     status clk k ps' = status clk k ps"
proof (induction ps' arbitrary: ps k)
  case Nil
  then show ?case by simp
next
  case (Cons p' ps')
  then obtain p qs where ps: "ps = p # qs" by (cases ps) auto
  with Cons.prems have "Name p' = Name p" "Logs p' = Logs p"
    "map Name ps' = map Name qs" "map Logs ps' = map Logs qs"
    by simp_all
  with Cons.IH [of qs] show ?case by (simp add: ps Let_def)
qed

lemma stop_zero_keeps_logs:
  assumes "firstIndex name (Projects tracker) = Some i" "isActive (Projects tracker ! i)"
  shows "snd (stop name 0 tracker) =
     tracker\<lparr>Projects := (Projects tracker)
       [i := (Projects tracker ! i)\<lparr>TotalTime := TotalTime (Projects tracker ! i)
           + time_Sub 0 (Start (last (Logs (Projects tracker ! i))))\<rparr>]\<rparr>"
proof -
  let ?logs = "Logs (Projects tracker ! i)"
  from assms(2) have ne: "?logs \<noteq> []" and z: "End (last ?logs) = 0"
    by (simp_all add: isActive_def time_IsZero_def)
  from z have "(last ?logs)\<lparr>End := 0\<rparr> = last ?logs"
    by (cases "last ?logs") simp
  with ne have "butlast ?logs @ [(last ?logs)\<lparr>End := 0\<rparr>] = ?logs" by simp
  moreover have "q\<lparr>Logs := Logs q, TotalTime := x\<rparr> = q\<lparr>TotalTime := x\<rparr>" for q :: Project and x
    by simp
  ultimately show ?thesis using assms by (simp add: stop_Some)
qed

text \<open>
  C10. An entry is open exactly when its end is the zero instant, and closed exactly when
  it is not; \<open>stats\<close> marks a row as open by the same test. So the entry that \<open>stop\<close>
  leaves behind when it is called at the zero instant is the open entry that was there
  before: the project's entries are unchanged and the project is still Active, a further
  \<open>start\<close> is refused and a further \<open>stop\<close> accepted, \<open>status\<close> prints what it printed
  before, \<open>stats\<close> shows the same rows with the last one open, and \<open>report\<close> reads the
  clock for the project and adds the time since the start of that entry.
\<close>

theorem zero_end_is_open:
  "time_IsZero (End e) = (End e = 0)
   \<and> (j < length es \<longrightarrow>
        (RowEnd (statsRows clk k n es ! j) = None) = (End (es ! j) = 0)
      \<and> (RowEnd (statsRows clk k n es ! j) = Some (End (es ! j))) = (End (es ! j) \<noteq> 0))
   \<and> (firstIndex name (Projects tracker) = Some i \<and> isActive (Projects tracker ! i)
        \<and> tracker' = snd (stop name 0 tracker) \<longrightarrow>
        Logs (Projects tracker' ! i) = Logs (Projects tracker ! i)
      \<and> isActive (Projects tracker' ! i)
      \<and> start name now tracker' = (AlreadyActive, tracker')
      \<and> (\<exists>d t. fst (stop name now tracker') = Stopped d t)
      \<and> status clk k (Projects tracker') = status clk k (Projects tracker)
      \<and> (\<exists>tot. stats name clk k tracker' =
            Some (length (Logs (Projects tracker ! i)), tot,
                  statsRows clk k 0 (Logs (Projects tracker ! i))))
      \<and> RowEnd (last (statsRows clk k 0 (Logs (Projects tracker' ! i)))) = None
      \<and> reads (Projects tracker' ! i) = 1
      \<and> timeOf now (Projects tracker' ! i) = TotalTime (Projects tracker' ! i)
           + time_Sub now (Start (last (Logs (Projects tracker ! i)))))"
proof (intro conjI impI)
  show "time_IsZero (End e) = (End e = 0)" by (simp add: time_IsZero_def)
next
  assume "j < length es"
  then show "(RowEnd (statsRows clk k n es ! j) = None) = (End (es ! j) = 0)"
    "(RowEnd (statsRows clk k n es ! j) = Some (End (es ! j))) = (End (es ! j) \<noteq> 0)"
    by (simp_all add: statsRows_nth time_IsZero_def)
next
  assume a: "firstIndex name (Projects tracker) = Some i \<and> isActive (Projects tracker ! i)
        \<and> tracker' = snd (stop name 0 tracker)"
  let ?ps = "Projects tracker"
  let ?q = "(?ps ! i)\<lparr>TotalTime := TotalTime (?ps ! i) + time_Sub 0 (Start (last (Logs (?ps ! i))))\<rparr>"
  from a have fi: "firstIndex name ?ps = Some i" and act: "isActive (?ps ! i)" by simp_all
  note f = firstIndex_Some [OF fi]
  from a stop_zero_keeps_logs [OF fi act] have t': "tracker' = tracker\<lparr>Projects := ?ps[i := ?q]\<rparr>"
    by simp
  from f have q: "Projects tracker' ! i = ?q" by (simp add: t')
  have names: "map Name (Projects tracker') = map Name ?ps"
    using f by (simp add: t' map_update list_update_same_conv)
  have logs: "map Logs (Projects tracker') = map Logs ?ps"
    using f by (simp add: t' map_update list_update_same_conv)
  have fi': "firstIndex name (Projects tracker') = Some i"
  proof (rule firstIndex_first)
    show "i < length (Projects tracker')" using f by (simp add: t')
    show "Name (Projects tracker' ! i) = name" using f by (simp add: q)
    show "\<forall>j<i. Name (Projects tracker' ! j) \<noteq> name" using f by (simp add: t')
  qed
  have act': "isActive (Projects tracker' ! i)"
    using act by (simp add: q isActive_def)
  show "Logs (Projects tracker' ! i) = Logs (?ps ! i)" by (simp add: q)
  show "isActive (Projects tracker' ! i)" by (fact act')
  show "start name now tracker' = (AlreadyActive, tracker')"
    using act' by (simp add: start_Some [OF fi'])
  show "\<exists>d t. fst (stop name now tracker') = Stopped d t"
    using act' by (simp add: stop_Some [OF fi'])
  show "status clk k (Projects tracker') = status clk k ?ps"
    using names logs by (rule status_cong)
  show "\<exists>tot. stats name clk k tracker' =
      Some (length (Logs (?ps ! i)), tot, statsRows clk k 0 (Logs (?ps ! i)))"
    using fi' by (simp add: stats_def Let_def q)
  show "RowEnd (last (statsRows clk k 0 (Logs (Projects tracker' ! i)))) = None"
    using act' statsRows_last_open [of clk k 0 "Projects tracker' ! i"] by simp
  show "reads (Projects tracker' ! i) = 1"
    using act' by (simp add: reads_isActive)
  show "timeOf now (Projects tracker' ! i) = TotalTime (Projects tracker' ! i)
      + time_Sub now (Start (last (Logs (?ps ! i))))"
    using act' by (simp add: timeOf_isActive) (simp add: q)
qed

theorem zero_end_is_open_witness:
  "RowEnd (statsRows tick 0 0 (Logs (Projects bothOpen ! 0)) ! 0) = Some (T0 + 90000000000)
   \<and> RowEnd (statsRows tick 0 0 (Logs (Projects bothOpen ! 0)) ! 1) = None
   \<and> Logs (Projects (snd (stop ''alpha'' 0 alphaOpen)) ! 0) = [\<lparr>Start = T0, End = 0\<rparr>]
   \<and> isActive (Projects (snd (stop ''alpha'' 0 alphaOpen)) ! 0)
   \<and> fst (start ''alpha'' (tick 0) (snd (stop ''alpha'' 0 alphaOpen))) = AlreadyActive
   \<and> status tick 0 (Projects (snd (stop ''alpha'' 0 alphaOpen))) = [(''alpha'', T0, 160000000000)]
   \<and> timeOf (tick 0) (Projects (snd (stop ''alpha'' 0 alphaOpen)) ! 0)
       = TotalTime (Projects (snd (stop ''alpha'' 0 alphaOpen)) ! 0) + 160000000000"
proof -
  let ?es = "Logs (Projects bothOpen ! 0)"
  let ?t' = "snd (stop ''alpha'' 0 alphaOpen)"
  note w0 = zero_end_is_open [of "hd ?es" 0 ?es tick 0 0 "''alpha''" alphaOpen 0 ?t' "tick 0"]
  note w1 = zero_end_is_open [of "hd ?es" 1 ?es tick 0 0 "''alpha''" alphaOpen 0 ?t' "tick 0"]
  have es: "?es = [\<lparr>Start = T0, End = T0 + 90000000000\<rparr>, \<lparr>Start = T0 + 100000000000, End = 0\<rparr>]"
    by (simp add: bothOpen_def)
  have e0: "End (?es ! 0) \<noteq> 0" "End (?es ! 0) = T0 + 90000000000" by (simp_all add: es T0_def)
  have e1: "End (?es ! 1) = 0" by (simp add: es)
  have l: "(0::nat) < length ?es" "(1::nat) < length ?es" by (simp_all add: es)
  have h: "firstIndex ''alpha'' (Projects alphaOpen) = Some 0 \<and> isActive (Projects alphaOpen ! 0)
      \<and> ?t' = snd (stop ''alpha'' 0 alphaOpen)"
    by (simp add: alphaOpen_def isActive_def time_IsZero_def)
  have old: "Logs (Projects alphaOpen ! 0) = [\<lparr>Start = T0, End = 0\<rparr>]"
    "status tick 0 (Projects alphaOpen) = [(''alpha'', T0, 160000000000)]"
    "time_Sub (tick 0) (Start (last (Logs (Projects alphaOpen ! 0)))) = 160000000000"
    by (simp_all add: alphaOpen_def Let_def time_IsZero_def time_Since_def tick_def time_Sub_def
        minDuration_def maxDuration_def)
  from w0 l(1) e0 have "RowEnd (statsRows tick 0 0 ?es ! 0) = Some (T0 + 90000000000)" by metis
  moreover from w1 l(2) e1 have "RowEnd (statsRows tick 0 0 ?es ! 1) = None" by blast
  moreover from w0 h have "Logs (Projects ?t' ! 0) = [\<lparr>Start = T0, End = 0\<rparr>]"
    using old(1) by simp
  moreover from w0 h have "isActive (Projects ?t' ! 0)" by blast
  moreover from w0 h have "start ''alpha'' (tick 0) ?t' = (AlreadyActive, ?t')" by blast
  then have "fst (start ''alpha'' (tick 0) ?t') = AlreadyActive" by simp
  moreover from w0 h have "status tick 0 (Projects ?t') = status tick 0 (Projects alphaOpen)"
    by blast
  then have "status tick 0 (Projects ?t') = [(''alpha'', T0, 160000000000)]"
    using old(2) by simp
  moreover from w0 h have "timeOf (tick 0) (Projects ?t' ! 0) = TotalTime (Projects ?t' ! 0)
      + time_Sub (tick 0) (Start (last (Logs (Projects alphaOpen ! 0))))"
    by blast
  then have "timeOf (tick 0) (Projects ?t' ! 0) = TotalTime (Projects ?t' ! 0) + 160000000000"
    using old(3) by simp
  ultimately show ?thesis by blast
qed

end
